theory Spec2Isabelle
  imports Complex_Main
begin

section \<open>Account ledger, QR payment codes and fraud scoring of the e-banking server\<close>

text \<open>
  The development embeds the money-moving request handlers of the Express server
  (\<^verbatim>\<open>registerRoutes\<close>: deposit, withdraw, transfer, qr/generate, qr/scan), the storage
  methods they call (\<^verbatim>\<open>DatabaseStorage\<close>) and the fraud scoring functions
  (\<^verbatim>\<open>FraudDetectionService\<close>).

  Conventions of the embedding:
  \<^item> A JavaScript number and a \<^verbatim>\<open>decimal\<close> column value are both modelled by the exact
    rational they denote, so \<^verbatim>\<open>parseFloat\<close> of a stored decimal is the identity and
    \<^verbatim>\<open>x.toFixed(2)\<close> is rounding to two decimals, ties upwards in magnitude. A sum or
    difference is the exact one; JavaScript rounds it to a double first, which gives the
    same two decimals for amounts of at most two decimals within the range of the
    columns and for binary fractions, and can differ by one hundredth when the exact
    result is a tie that is no double (5000 + 0.025). The concrete runs below stay in
    the first two cases.
  \<^item> The database is a record of tables (lists of rows). A storage call that the database
    refuses (a value outside its \<^verbatim>\<open>decimal\<close> or \<^verbatim>\<open>varchar\<close> column, a repeated unique
    value, a foreign key without its row) returns \<open>None\<close>, as the rejected promise; a
    handler then answers 500 from its \<^verbatim>\<open>catch\<close>, and the writes it has already made
    stay, since no handler opens a transaction.
  \<^item> A request runs alone from the read of \<^verbatim>\<open>req.user\<close> to its last write. The QR scan is
    also given in two parts, its reads and its writes, so that two scans which overlap
    between these parts can be run.
  \<^item> The session token is resolved already: a handler receives the user id of the
    session and \<^verbatim>\<open>authenticate\<close> loads that user and checks \<^verbatim>\<open>isActive\<close>.
  \<^item> \<^verbatim>\<open>Date.now()\<close>, the generated reference number, the random QR token, the local hour
    of a timestamp and \<^verbatim>\<open>bcrypt.compare\<close> come from an environment record.
\<close>

subsection \<open>Rows of the schema\<close>

record user =
  user_id :: nat
  accountNumber :: string
  pin :: string
  fullName :: string
  balance :: rat
  walletBalance :: rat
  isActive :: bool
  role :: string

datatype transactionType = deposit_t | withdrawal_to_wallet | transfer_t | wallet_payment

datatype transactionStatus = pending_s | completed | failed

record insertTransaction =
  fromUserId :: "nat option"
  toUserId :: "nat option"
  fromAccountNumber :: "string option"
  toAccountNumber :: "string option"
  amount :: rat
  transactionType :: transactionType
  description :: "string option"
  status :: transactionStatus
  referenceNumber :: string

record transaction = insertTransaction +
  tx_id :: nat
  createdAt :: int

record qrPayment =
  qr_id :: nat
  userId :: nat
  qrCode :: string
  qr_amount :: "rat option"
  merchantName :: "string option"
  isUsed :: bool
  expiresAt :: int

datatype alertStatus = pending | reviewed | false_positive | confirmed_fraud

record fraudAlert =
  alert_id :: nat
  alert_userId :: nat
  transactionId :: "nat option"
  alertType :: string
  alert_riskScore :: rat
  alert_description :: string
  alert_status :: alertStatus

record db =
  users :: "user list"
  transactions :: "transaction list"
  qrPayments :: "qrPayment list"
  fraudAlerts :: "fraudAlert list"
  next_tx_id :: nat
  next_qr_id :: nat
  next_alert_id :: nat

record env =
  now :: int
  generateReferenceNumber :: string
  randomHex :: string
  getHours :: "int \<Rightarrow> int"
  bcrypt_compare :: "string \<Rightarrow> string \<Rightarrow> bool"

subsection \<open>Numbers\<close>

text \<open>\<^verbatim>\<open>Number.prototype.toFixed(2)\<close>: the integer \<open>n\<close> with \<open>n / 100\<close> closest to the
  magnitude of \<open>x\<close>, the larger one on a tie, with the sign of \<open>x\<close>.\<close>

definition toFixed2 :: "rat \<Rightarrow> rat" where
  "toFixed2 x =
     (if x < 0 then - (of_int \<lfloor>(- x) * 100 + 1 / 2\<rfloor> / 100)
      else of_int \<lfloor>x * 100 + 1 / 2\<rfloor> / 100)"

text \<open>What a \<^verbatim>\<open>decimal\<close> column of scale 2 keeps of a written number: two decimals,
  rounded half away from zero. A \<^verbatim>\<open>decimal(15, 2)\<close> column refuses a number whose rounded
  magnitude reaches \<open>10^13\<close>, a \<^verbatim>\<open>decimal(5, 2)\<close> column one that reaches 1000.\<close>

definition decimal_15_2 :: "rat \<Rightarrow> rat" where
  "decimal_15_2 x =
     (if x < 0 then - (of_int \<lfloor>(- x) * 100 + 1 / 2\<rfloor> / 100)
      else of_int \<lfloor>x * 100 + 1 / 2\<rfloor> / 100)"

definition fits_15_2 :: "rat \<Rightarrow> bool" where
  "fits_15_2 x \<longleftrightarrow> \<bar>decimal_15_2 x\<bar> < 10 ^ 13"

definition decimal_5_2 :: "rat \<Rightarrow> rat" where
  "decimal_5_2 x =
     (if x < 0 then - (of_int \<lfloor>(- x) * 100 + 1 / 2\<rfloor> / 100)
      else of_int \<lfloor>x * 100 + 1 / 2\<rfloor> / 100)"

definition fits_5_2 :: "rat \<Rightarrow> bool" where
  "fits_5_2 x \<longleftrightarrow> \<bar>decimal_5_2 x\<bar> < 1000"

text \<open>A whole number of hundredths, the values a column of scale 2 can hold.\<close>

definition whole_cents :: "rat \<Rightarrow> bool" where
  "whole_cents x \<longleftrightarrow> of_int \<lfloor>x * 100\<rfloor> = x * 100"

text \<open>A foreign key column, and a \<^verbatim>\<open>varchar(n)\<close> column that may be null.\<close>

definition references :: "nat option \<Rightarrow> nat list \<Rightarrow> bool" where
  "references k ids = (case k of None \<Rightarrow> True | Some i \<Rightarrow> i \<in> set ids)"

definition varchar :: "nat \<Rightarrow> string option \<Rightarrow> bool" where
  "varchar n v = (case v of None \<Rightarrow> True | Some x \<Rightarrow> length x \<le> n)"

subsection \<open>Storage (\<^verbatim>\<open>DatabaseStorage\<close>)\<close>

definition getUser :: "db \<Rightarrow> nat \<Rightarrow> user option" where
  "getUser s i = find (\<lambda>u. user_id u = i) (users s)"

definition getUserByAccountNumber :: "db \<Rightarrow> string \<Rightarrow> user option" where
  "getUserByAccountNumber s a = find (\<lambda>u. accountNumber u = a) (users s)"

text \<open>\<^verbatim>\<open>updateUserBalance\<close> and \<^verbatim>\<open>updateUserWalletBalance\<close>: one \<^verbatim>\<open>UPDATE\<close> of a
  \<^verbatim>\<open>decimal(15, 2)\<close> column on the rows with this id.\<close>

definition updateUserBalance :: "db \<Rightarrow> nat \<Rightarrow> rat \<Rightarrow> db option" where
  "updateUserBalance s i b =
     (if fits_15_2 b
      then Some (s\<lparr>users :=
             map (\<lambda>u. if user_id u = i then u\<lparr>balance := decimal_15_2 b\<rparr> else u) (users s)\<rparr>)
      else None)"

definition updateUserWalletBalance :: "db \<Rightarrow> nat \<Rightarrow> rat \<Rightarrow> db option" where
  "updateUserWalletBalance s i w =
     (if fits_15_2 w
      then Some (s\<lparr>users :=
             map (\<lambda>u. if user_id u = i then u\<lparr>walletBalance := decimal_15_2 w\<rparr> else u)
               (users s)\<rparr>)
      else None)"

text \<open>\<^verbatim>\<open>createTransaction\<close>: the insert assigns the serial id and \<^verbatim>\<open>created_at\<close>. The table
  has foreign keys to the users, account numbers of at most 20 characters, an amount of
  type \<^verbatim>\<open>decimal(15, 2)\<close> and a unique reference number of at most 50 characters.\<close>

definition createTransaction :: "env \<Rightarrow> db \<Rightarrow> insertTransaction \<Rightarrow> db option" where
  "createTransaction e s t =
     (if references (fromUserId t) (map user_id (users s)) \<and>
         references (toUserId t) (map user_id (users s)) \<and>
         varchar 20 (fromAccountNumber t) \<and> varchar 20 (toAccountNumber t) \<and>
         fits_15_2 (amount t) \<and>
         length (referenceNumber t) \<le> 50 \<and>
         referenceNumber t \<notin> set (map referenceNumber (transactions s))
      then Some (s\<lparr>transactions := transactions s @
             [\<lparr>fromUserId = fromUserId t, toUserId = toUserId t,
               fromAccountNumber = fromAccountNumber t, toAccountNumber = toAccountNumber t,
               amount = decimal_15_2 (amount t), transactionType = transactionType t,
               description = description t, status = status t,
               referenceNumber = referenceNumber t,
               tx_id = next_tx_id s, createdAt = now e\<rparr>],
             next_tx_id := Suc (next_tx_id s)\<rparr>)
      else None)"

definition getTransactionsByUserId :: "db \<Rightarrow> nat \<Rightarrow> transaction list" where
  "getTransactionsByUserId s i =
     filter (\<lambda>t. fromUserId t = Some i \<or> toUserId t = Some i) (transactions s)"


text \<open>\<^verbatim>\<open>getQrPaymentByCode\<close>: the row with this code that is unused and whose
  \<^verbatim>\<open>expiresAt\<close> is greater than or equal to the current time (\<^verbatim>\<open>gte\<close>).\<close>

definition getQrPaymentByCode :: "env \<Rightarrow> db \<Rightarrow> string \<Rightarrow> qrPayment option" where
  "getQrPaymentByCode e s c =
     find (\<lambda>q. qrCode q = c \<and> isUsed q = False \<and> expiresAt q \<ge> now e) (qrPayments s)"

text \<open>\<^verbatim>\<open>markQrPaymentAsUsed\<close>: an \<^verbatim>\<open>UPDATE\<close> by id, whatever the flag was.\<close>

definition markQrPaymentAsUsed :: "db \<Rightarrow> nat \<Rightarrow> db" where
  "markQrPaymentAsUsed s i =
     s\<lparr>qrPayments := map (\<lambda>q. if qr_id q = i then q\<lparr>isUsed := True\<rparr> else q) (qrPayments s)\<rparr>"

text \<open>\<^verbatim>\<open>createFraudAlert\<close>: foreign keys to the user and, when given, to the transaction,
  an alert type of at most 50 characters, a risk score of type \<^verbatim>\<open>decimal(5, 2)\<close>; the
  status column defaults to \<^verbatim>\<open>pending\<close>.\<close>

definition createFraudAlert ::
  "db \<Rightarrow> nat \<Rightarrow> nat option \<Rightarrow> string \<Rightarrow> rat \<Rightarrow> string \<Rightarrow> alertStatus option \<Rightarrow> db option"
  where
  "createFraudAlert s i t ty r d st =
     (if i \<in> set (map user_id (users s)) \<and> references t (map tx_id (transactions s)) \<and>
         length ty \<le> 50 \<and> fits_5_2 r
      then Some (s\<lparr>fraudAlerts := fraudAlerts s @
             [\<lparr>alert_id = next_alert_id s, alert_userId = i, transactionId = t,
               alertType = ty, alert_riskScore = decimal_5_2 r, alert_description = d,
               alert_status = (case st of None \<Rightarrow> pending | Some v \<Rightarrow> v)\<rparr>],
             next_alert_id := Suc (next_alert_id s)\<rparr>)
      else None)"

subsection \<open>Requests, responses and errors\<close>

datatype error =
    UserNotFoundOrInactive
  | InvalidInput
  | InvalidPIN
  | InsufficientBalance
  | DestinationAccountNumberRequired
  | DestinationAccountNotFound
  | CannotTransferToSameAccount
  | QrCodeRequired
  | InvalidOrExpiredQrCode
  | InvalidPaymentAmount
  | InsufficientWalletBalance
  | InternalServerError


datatype response =
    DepositSuccessful rat rat
  | WithdrawalSuccessful rat rat rat
  | TransferSuccessful rat rat string
  | QrGenerated string "rat option" string int
  | PaymentSuccessful rat "string option" rat

record transactionRequest =
  req_amount :: rat
  req_pin :: string
  req_toAccountNumber :: "string option"

text \<open>\<^verbatim>\<open>transactionSchema\<close>: \<^verbatim>\<open>amount: z.number().positive()\<close>,
  \<^verbatim>\<open>pin: z.string().min(4).max(6)\<close>.\<close>

definition transactionSchema :: "transactionRequest \<Rightarrow> bool" where
  "transactionSchema r \<longleftrightarrow> req_amount r > 0 \<and> 4 \<le> length (req_pin r) \<and> length (req_pin r) \<le> 6"

definition authenticate :: "db \<Rightarrow> nat \<Rightarrow> error + user" where
  "authenticate s i =
     (case getUser s i of
        None \<Rightarrow> Inl UserNotFoundOrInactive
      | Some u \<Rightarrow> if isActive u then Inr u else Inl UserNotFoundOrInactive)"

subsection \<open>Handlers\<close>

text \<open>The objects that the handlers pass to \<^verbatim>\<open>storage.createTransaction\<close>.\<close>

definition deposit_row :: "env \<Rightarrow> user \<Rightarrow> rat \<Rightarrow> insertTransaction" where
  "deposit_row e u a =
     \<lparr>fromUserId = None, toUserId = Some (user_id u),
      fromAccountNumber = None, toAccountNumber = Some (accountNumber u),
      amount = a, transactionType = deposit_t,
      description = Some ''Cash deposit'', status = completed,
      referenceNumber = generateReferenceNumber e\<rparr>"

definition withdraw_row :: "env \<Rightarrow> user \<Rightarrow> rat \<Rightarrow> insertTransaction" where
  "withdraw_row e u a =
     \<lparr>fromUserId = Some (user_id u), toUserId = None,
      fromAccountNumber = Some (accountNumber u), toAccountNumber = None,
      amount = a, transactionType = withdrawal_to_wallet,
      description = Some ''Withdrawal to wallet'', status = completed,
      referenceNumber = generateReferenceNumber e\<rparr>"

definition transfer_row :: "env \<Rightarrow> user \<Rightarrow> user \<Rightarrow> rat \<Rightarrow> insertTransaction" where
  "transfer_row e u toUser a =
     \<lparr>fromUserId = Some (user_id u), toUserId = Some (user_id toUser),
      fromAccountNumber = Some (accountNumber u),
      toAccountNumber = Some (accountNumber toUser),
      amount = a, transactionType = transfer_t,
      description = Some (''Transfer to '' @ fullName toUser), status = completed,
      referenceNumber = generateReferenceNumber e\<rparr>"

text \<open>A JavaScript value is falsy when it is missing, an empty string or the number 0.\<close>

definition or_default :: "string option \<Rightarrow> string \<Rightarrow> string" where
  "or_default m d = (case m of None \<Rightarrow> d | Some x \<Rightarrow> if x = [] then d else x)"

definition payment_row :: "env \<Rightarrow> user \<Rightarrow> qrPayment \<Rightarrow> rat \<Rightarrow> insertTransaction" where
  "payment_row e u q a =
     \<lparr>fromUserId = Some (user_id u), toUserId = None,
      fromAccountNumber = Some (accountNumber u),
      toAccountNumber = Some (or_default (merchantName q) ''QR Merchant''),
      amount = a, transactionType = wallet_payment,
      description = Some (''QR Payment to '' @ or_default (merchantName q) ''Merchant''),
      status = completed,
      referenceNumber = generateReferenceNumber e\<rparr>"

definition deposit :: "env \<Rightarrow> db \<Rightarrow> nat \<Rightarrow> transactionRequest \<Rightarrow> (error + response) \<times> db" where
  "deposit e s i r =
     (case authenticate s i of
        Inl err \<Rightarrow> (Inl err, s)
      | Inr u \<Rightarrow>
          if \<not> transactionSchema r then (Inl InvalidInput, s)
          else if \<not> bcrypt_compare e (req_pin r) (pin u) then (Inl InvalidPIN, s)
          else
            let newBalance = toFixed2 (balance u + req_amount r) in
            (case createTransaction e s (deposit_row e u (req_amount r)) of
               None \<Rightarrow> (Inl InternalServerError, s)
             | Some s1 \<Rightarrow>
                 (case updateUserBalance s1 (user_id u) newBalance of
                    None \<Rightarrow> (Inl InternalServerError, s1)
                  | Some s2 \<Rightarrow> (Inr (DepositSuccessful newBalance (req_amount r)), s2))))"

definition withdraw :: "env \<Rightarrow> db \<Rightarrow> nat \<Rightarrow> transactionRequest \<Rightarrow> (error + response) \<times> db" where
  "withdraw e s i r =
     (case authenticate s i of
        Inl err \<Rightarrow> (Inl err, s)
      | Inr u \<Rightarrow>
          if \<not> transactionSchema r then (Inl InvalidInput, s)
          else if \<not> bcrypt_compare e (req_pin r) (pin u) then (Inl InvalidPIN, s)
          else if balance u < req_amount r then (Inl InsufficientBalance, s)
          else
            let newBalance = toFixed2 (balance u - req_amount r);
                newWalletBalance = toFixed2 (walletBalance u + req_amount r) in
            (case createTransaction e s (withdraw_row e u (req_amount r)) of
               None \<Rightarrow> (Inl InternalServerError, s)
             | Some s1 \<Rightarrow>
                 (case updateUserBalance s1 (user_id u) newBalance of
                    None \<Rightarrow> (Inl InternalServerError, s1)
                  | Some s2 \<Rightarrow>
                      (case updateUserWalletBalance s2 (user_id u) newWalletBalance of
                         None \<Rightarrow> (Inl InternalServerError, s2)
                       | Some s3 \<Rightarrow>
                           (Inr (WithdrawalSuccessful newBalance newWalletBalance
                                  (req_amount r)), s3)))))"

definition transfer :: "env \<Rightarrow> db \<Rightarrow> nat \<Rightarrow> transactionRequest \<Rightarrow> (error + response) \<times> db" where
  "transfer e s i r =
     (case authenticate s i of
        Inl err \<Rightarrow> (Inl err, s)
      | Inr u \<Rightarrow>
          if \<not> transactionSchema r then (Inl InvalidInput, s)
          else if req_toAccountNumber r = None \<or> req_toAccountNumber r = Some []
            then (Inl DestinationAccountNumberRequired, s)
          else if \<not> bcrypt_compare e (req_pin r) (pin u) then (Inl InvalidPIN, s)
          else
            (case getUserByAccountNumber s (the (req_toAccountNumber r)) of
               None \<Rightarrow> (Inl DestinationAccountNotFound, s)
             | Some toUser \<Rightarrow>
                 if \<not> isActive toUser then (Inl DestinationAccountNotFound, s)
                 else if user_id toUser = user_id u then (Inl CannotTransferToSameAccount, s)
                 else if balance u < req_amount r then (Inl InsufficientBalance, s)
                 else
                   let fromNewBalance = toFixed2 (balance u - req_amount r);
                       toNewBalance = toFixed2 (balance toUser + req_amount r) in
                   (case createTransaction e s (transfer_row e u toUser (req_amount r)) of
                      None \<Rightarrow> (Inl InternalServerError, s)
                    | Some s1 \<Rightarrow>
                        (case updateUserBalance s1 (user_id u) fromNewBalance of
                           None \<Rightarrow> (Inl InternalServerError, s1)
                         | Some s2 \<Rightarrow>
                             (case updateUserBalance s2 (user_id toUser) toNewBalance of
                                None \<Rightarrow> (Inl InternalServerError, s2)
                              | Some s3 \<Rightarrow>
                                  (Inr (TransferSuccessful fromNewBalance (req_amount r)
                                         (fullName toUser)), s3))))))"


text \<open>\<^verbatim>\<open>amount || parseFloat(qrPayment.amount || '0')\<close>: the amount of the request when
  it is a number other than 0, else the amount of the code, else 0.\<close>

definition paymentAmount :: "rat option \<Rightarrow> qrPayment \<Rightarrow> rat" where
  "paymentAmount a q =
     (case a of
        Some v \<Rightarrow> if v \<noteq> 0 then v else (case qr_amount q of None \<Rightarrow> 0 | Some c \<Rightarrow> c)
      | None \<Rightarrow> (case qr_amount q of None \<Rightarrow> 0 | Some c \<Rightarrow> c))"

text \<open>The scan handler up to its last read: the user of the session, the code that
  \<^verbatim>\<open>getQrPaymentByCode\<close> returns, and the checks on the amount and the wallet.\<close>

definition qr_scan_reads ::
  "env \<Rightarrow> db \<Rightarrow> nat \<Rightarrow> string option \<Rightarrow> rat option \<Rightarrow> error + user \<times> qrPayment" where
  "qr_scan_reads e s i c a =
     (case authenticate s i of
        Inl err \<Rightarrow> Inl err
      | Inr u \<Rightarrow>
          if c = None \<or> c = Some [] then Inl QrCodeRequired
          else
            (case getQrPaymentByCode e s (the c) of
               None \<Rightarrow> Inl InvalidOrExpiredQrCode
             | Some q \<Rightarrow>
                 if paymentAmount a q \<le> 0 then Inl InvalidPaymentAmount
                 else if walletBalance u < paymentAmount a q then Inl InsufficientWalletBalance
                 else Inr (u, q)))"

text \<open>The scan handler from its first write, on the user and the code it has read: the
  transaction row, the wallet balance computed from the user as read, the used flag.\<close>

definition qr_scan_writes ::
  "env \<Rightarrow> db \<Rightarrow> user \<Rightarrow> qrPayment \<Rightarrow> rat option \<Rightarrow> (error + response) \<times> db" where
  "qr_scan_writes e s u q a =
     (let newWalletBalance = toFixed2 (walletBalance u - paymentAmount a q) in
      (case createTransaction e s (payment_row e u q (paymentAmount a q)) of
         None \<Rightarrow> (Inl InternalServerError, s)
       | Some s1 \<Rightarrow>
           (case updateUserWalletBalance s1 (user_id u) newWalletBalance of
              None \<Rightarrow> (Inl InternalServerError, s1)
            | Some s2 \<Rightarrow>
                (Inr (PaymentSuccessful (paymentAmount a q) (merchantName q) newWalletBalance),
                 markQrPaymentAsUsed s2 (qr_id q)))))"

definition qr_scan ::
  "env \<Rightarrow> db \<Rightarrow> nat \<Rightarrow> string option \<Rightarrow> rat option \<Rightarrow> (error + response) \<times> db" where
  "qr_scan e s i c a =
     (case qr_scan_reads e s i c a of
        Inl err \<Rightarrow> (Inl err, s)
      | Inr (u, q) \<Rightarrow> qr_scan_writes e s u q a)"

subsection \<open>Fraud scoring (\<^verbatim>\<open>FraudDetectionService\<close>)\<close>

text \<open>A pattern carries its type and its risk score; the description text of a pattern
  is not part of the embedding.\<close>

record fraudPattern =
  pattern_type :: string
  riskScore :: rat

definition UNUSUAL_AMOUNT_THRESHOLD :: rat where
  "UNUSUAL_AMOUNT_THRESHOLD = 10000"

definition FREQUENT_TRANSACTIONS_THRESHOLD :: nat where
  "FREQUENT_TRANSACTIONS_THRESHOLD = 5"

definition HIGH_VELOCITY_THRESHOLD :: nat where
  "HIGH_VELOCITY_THRESHOLD = 3"

definition isUnusualAmount :: "transaction \<Rightarrow> user \<Rightarrow> bool" where
  "isUnusualAmount t u \<longleftrightarrow>
     amount t > UNUSUAL_AMOUNT_THRESHOLD \<or> amount t > balance u * (1 / 2)"

definition getRecentTransactions :: "env \<Rightarrow> db \<Rightarrow> nat \<Rightarrow> int \<Rightarrow> transaction list" where
  "getRecentTransactions e s i minutes =
     filter (\<lambda>t. createdAt t > now e - minutes * 60 * 1000 \<and> status t = completed)
       (getTransactionsByUserId s i)"

definition isUnusualTime :: "env \<Rightarrow> transaction \<Rightarrow> bool" where
  "isUnusualTime e t \<longleftrightarrow> getHours e (createdAt t) \<ge> 23 \<or> getHours e (createdAt t) \<le> 6"

definition isRoundAmount :: "transaction \<Rightarrow> bool" where
  "isRoundAmount t \<longleftrightarrow> of_int \<lfloor>amount t / 1000\<rfloor> * 1000 = amount t \<and> amount t \<ge> 1000"

definition analyzeTransaction :: "env \<Rightarrow> db \<Rightarrow> transaction \<Rightarrow> user \<Rightarrow> fraudPattern list" where
  "analyzeTransaction e s t u =
     (if isUnusualAmount t u
        then [\<lparr>pattern_type = ''unusual_amount'', riskScore = 75\<rparr>] else []) @
     (if length (getRecentTransactions e s (user_id u) 60) \<ge> FREQUENT_TRANSACTIONS_THRESHOLD
        then [\<lparr>pattern_type = ''frequent_transactions'', riskScore = 60\<rparr>] else []) @
     (if length (getRecentTransactions e s (user_id u) 10) \<ge> HIGH_VELOCITY_THRESHOLD
        then [\<lparr>pattern_type = ''high_velocity'', riskScore = 80\<rparr>] else []) @
     (if isUnusualTime e t
        then [\<lparr>pattern_type = ''time_pattern'', riskScore = 40\<rparr>] else []) @
     (if isRoundAmount t
        then [\<lparr>pattern_type = ''round_amount'', riskScore = 30\<rparr>] else [])"

definition calculateRiskScore :: "fraudPattern list \<Rightarrow> rat" where
  "calculateRiskScore patterns =
     (if length patterns = 0 then 0
      else
        let totalScore = foldl (\<lambda>sum pattern. sum + riskScore pattern) 0 patterns;
            weightedScore = totalScore / of_nat (length patterns);
            patternBonus = min (of_nat (length patterns) * 10) 30
        in min (weightedScore + patternBonus) 100)"

text \<open>The combination rule in the words of the specification: the average of the
  triggered weights plus ten per pattern, the bonus capped at 30 and the total at 100.\<close>

definition spec_score :: "rat list \<Rightarrow> rat" where
  "spec_score ws = min 100 (sum_list ws / of_nat (length ws) + min 30 (10 * of_nat (length ws)))"

subsection \<open>Sequences of operations\<close>

datatype operation =
    Deposit nat transactionRequest
  | WithdrawToWallet nat transactionRequest
  | Transfer nat transactionRequest
  | QrScan nat "string option" "rat option"

fun step :: "env \<Rightarrow> db \<Rightarrow> operation \<Rightarrow> (error + response) \<times> db" where
  "step e s (Deposit i r) = deposit e s i r"
| "step e s (WithdrawToWallet i r) = withdraw e s i r"
| "step e s (Transfer i r) = transfer e s i r"
| "step e s (QrScan i c a) = qr_scan e s i c a"

fun run :: "db \<Rightarrow> (env \<times> operation) list \<Rightarrow> db" where
  "run s [] = s"
| "run s ((e, x) # rest) = run (snd (step e s x)) rest"

text \<open>A transfer request whose amount has at most two decimals.\<close>

fun cents_transfer :: "operation \<Rightarrow> bool" where
  "cents_transfer (Transfer i r) = whole_cents (req_amount r)"
| "cents_transfer _ = False"

subsection \<open>State predicates\<close>

definition non_negative :: "db \<Rightarrow> bool" where
  "non_negative s \<longleftrightarrow> list_all (\<lambda>u. 0 \<le> balance u \<and> 0 \<le> walletBalance u) (users s)"

definition total_money :: "db \<Rightarrow> rat" where
  "total_money s = sum_list (map (\<lambda>u. balance u + walletBalance u) (users s))"

text \<open>The constraints of the schema: \<^verbatim>\<open>users.id\<close> is a primary key, balances are
  \<^verbatim>\<open>decimal(15, 2)\<close>; \<^verbatim>\<open>qr_payments.id\<close> is a primary key and \<^verbatim>\<open>qr_code\<close> is unique.\<close>

definition users_wf :: "db \<Rightarrow> bool" where
  "users_wf s \<longleftrightarrow>
     distinct (map user_id (users s)) \<and>
     list_all (\<lambda>u. whole_cents (balance u) \<and> whole_cents (walletBalance u)) (users s)"

definition qr_wf :: "db \<Rightarrow> bool" where
  "qr_wf s \<longleftrightarrow> distinct (map qr_id (qrPayments s)) \<and> distinct (map qrCode (qrPayments s))"

text \<open>The column constraints of the users table that the handlers rely on: account numbers
  of at most 20 characters and balances within \<^verbatim>\<open>decimal(15, 2)\<close>.\<close>

definition users_fit :: "db \<Rightarrow> bool" where
  "users_fit s \<longleftrightarrow>
     list_all (\<lambda>u. length (accountNumber u) \<le> 20 \<and> fits_15_2 (balance u) \<and>
                  fits_15_2 (walletBalance u)) (users s)"

text \<open>The generated reference number fits its column and is not in the table yet.\<close>

definition fresh_reference :: "env \<Rightarrow> db \<Rightarrow> bool" where
  "fresh_reference e s \<longleftrightarrow>
     length (generateReferenceNumber e) \<le> 50 \<and>
     generateReferenceNumber e \<notin> set (map referenceNumber (transactions s))"

subsection \<open>Example states\<close>

text \<open>Three customers, one unused payment code of 500 issued by the second customer for
  merchant \<open>M\<close>, and an environment whose PIN check accepts the hash \<open>$\<close> followed by
  the PIN.\<close>

definition env0 :: env where
  "env0 = \<lparr>now = 1000000, generateReferenceNumber = ''TXN1000000123'',
            randomHex = ''00ff'', getHours = (\<lambda>t. 12),
            bcrypt_compare = (\<lambda>p h. h = CHR ''$'' # p)\<rparr>"

definition userA :: user where
  "userA = \<lparr>user_id = 1, accountNumber = ''12345678'', pin = ''$1234'', fullName = ''Kavi'',
             balance = 5000, walletBalance = 0, isActive = True, role = ''customer''\<rparr>"

definition userB :: user where
  "userB = \<lparr>user_id = 2, accountNumber = ''87654321'', pin = ''$5678'', fullName = ''Arun'',
             balance = 7500, walletBalance = 750, isActive = True, role = ''customer''\<rparr>"

definition userC :: user where
  "userC = \<lparr>user_id = 3, accountNumber = ''45678912'', pin = ''$9876'', fullName = ''Gokul'',
             balance = 3000, walletBalance = 1000, isActive = True, role = ''customer''\<rparr>"

definition codeM :: qrPayment where
  "codeM = \<lparr>qr_id = 1, userId = 2, qrCode = ''c0de'', qr_amount = Some 500,
             merchantName = Some ''M'', isUsed = False, expiresAt = 2000000\<rparr>"

definition db0 :: db where
  "db0 = \<lparr>users = [userA, userB, userC], transactions = [], qrPayments = [codeM],
           fraudAlerts = [], next_tx_id = 1, next_qr_id = 2, next_alert_id = 1\<rparr>"

definition request :: "rat \<Rightarrow> string \<Rightarrow> string option \<Rightarrow> transactionRequest" where
  "request a p t = \<lparr>req_amount = a, req_pin = p, req_toAccountNumber = t\<rparr>"

definition env_at :: "int \<Rightarrow> string \<Rightarrow> env" where
  "env_at t ref = env0\<lparr>now := t, generateReferenceNumber := ref\<rparr>"

definition ops0 :: "(env \<times> operation) list" where
  "ops0 =
     [(env_at 1000001 ''TXN1000001111'', Deposit 1 (request 250 ''1234'' None)),
      (env_at 1000002 ''TXN1000002222'', WithdrawToWallet 1 (request 2000 ''1234'' None)),
      (env_at 1000003 ''TXN1000003333'',
         Transfer 3 (request 4000 ''9876'' (Some ''87654321''))),
      (env_at 1000004 ''TXN1000004444'',
         Transfer 1 (request 1000 ''1234'' (Some ''87654321''))),
      (env_at 1000005 ''TXN1000005555'', QrScan 3 (Some ''c0de'') None)]"

definition transfers0 :: "(env \<times> operation) list" where
  "transfers0 =
     [(env_at 1000001 ''TXN1000001111'',
         Transfer 1 (request (2001 / 2) ''1234'' (Some ''87654321''))),
      (env_at 1000002 ''TXN1000002222'',
         Transfer 3 (request 4000 ''9876'' (Some ''87654321''))),
      (env_at 1000003 ''TXN1000003333'',
         Transfer 2 (request (617 / 50) ''5678'' (Some ''45678912'')))]"

text \<open>The database after the third customer has paid the code of the example.\<close>

definition db1 :: db where
  "db1 = snd (qr_scan (env_at 1000001 ''TXN1000001111'') db0 3 (Some ''c0de'') None)"

text \<open>A fourth customer sends 9999999 three times within five minutes (one transfer a
  minute, in the early afternoon); the scoring is run one millisecond after the third.\<close>

definition userD :: user where
  "userD = \<lparr>user_id = 4, accountNumber = ''11112222'', pin = ''$4321'', fullName = ''Devi'',
             balance = 90000000, walletBalance = 0, isActive = True, role = ''customer''\<rparr>"

definition dbD :: db where
  "dbD = db0\<lparr>users := [userB, userD]\<rparr>"

definition opsD :: "(env \<times> operation) list" where
  "opsD =
     [(env_at 50000000 ''TXN50000000111'',
         Transfer 4 (request 9999999 ''4321'' (Some ''87654321''))),
      (env_at 50060000 ''TXN50060000222'',
         Transfer 4 (request 9999999 ''4321'' (Some ''87654321''))),
      (env_at 50120000 ''TXN50120000333'',
         Transfer 4 (request 9999999 ''4321'' (Some ''87654321'')))]"

text \<open>Two customers whose balances are close to the capacity \<open>10^13\<close> of the columns.\<close>

definition db_full :: db where
  "db_full = db0\<lparr>users :=
     [userA\<lparr>balance := 9000000000000\<rparr>,
      userB\<lparr>balance := 5000000000000, walletBalance := 9500000000000\<rparr>]\<rparr>"


section \<open>Properties\<close>

subsection \<open>Rounding to two decimals and the capacity of a column\<close>

lemma toFixed2_nonneg: "0 \<le> x \<Longrightarrow> 0 \<le> toFixed2 x"
  by (simp add: toFixed2_def)

lemma whole_cents_toFixed2: "whole_cents (toFixed2 x)"
  by (simp add: toFixed2_def whole_cents_def)

lemma floor_half: "\<lfloor>(of_int k :: rat) + 1 / 2\<rfloor> = k"
  by linarith

lemma whole_centsE:
  assumes "whole_cents x"
  obtains k :: int where "x = of_int k / 100"
proof -
  from assms have "of_int \<lfloor>x * 100\<rfloor> = x * 100" unfolding whole_cents_def .
  then have "x = of_int \<lfloor>x * 100\<rfloor> / 100" by linarith
  then show thesis using that by blast
qed

lemma whole_cents_of_int: "whole_cents (of_int k / 100)"
  by (simp add: whole_cents_def)

lemma toFixed2_of_int: "toFixed2 (of_int k / 100) = of_int k / 100"
proof (cases "k < 0")
  case True
  then have "(of_int k :: rat) / 100 < 0" by simp
  moreover have "\<lfloor>(of_int (- k) :: rat) + 1 / 2\<rfloor> = - k" by (rule floor_half)
  ultimately show ?thesis by (simp add: toFixed2_def)
next
  case False
  then have "\<not> (of_int k :: rat) / 100 < 0" by simp
  then show ?thesis using floor_half [of k] by (simp add: toFixed2_def)
qed

lemma toFixed2_whole_cents: "whole_cents x \<Longrightarrow> toFixed2 x = x"
  by (erule whole_centsE) (simp only: toFixed2_of_int)

lemma decimal_whole_cents: "whole_cents x \<Longrightarrow> decimal_15_2 x = x"
  using toFixed2_whole_cents [of x] by (simp add: toFixed2_def decimal_15_2_def)

lemma whole_cents_add: "whole_cents x \<Longrightarrow> whole_cents y \<Longrightarrow> whole_cents (x + y)"
proof -
  assume "whole_cents x" "whole_cents y"
  then obtain k l :: int where "x = of_int k / 100" "y = of_int l / 100"
    by (metis whole_centsE)
  then have "x + y = of_int (k + l) / 100" by simp
  then show ?thesis by (simp only: whole_cents_of_int)
qed

lemma whole_cents_diff: "whole_cents x \<Longrightarrow> whole_cents y \<Longrightarrow> whole_cents (x - y)"
proof -
  assume "whole_cents x" "whole_cents y"
  then obtain k l :: int where "x = of_int k / 100" "y = of_int l / 100"
    by (metis whole_centsE)
  then have "x - y = of_int (k - l) / 100" by (simp add: diff_divide_distrib)
  then show ?thesis by (simp only: whole_cents_of_int)
qed

lemma toFixed2_mono: "x \<le> y \<Longrightarrow> toFixed2 x \<le> toFixed2 y"
proof -
  assume xy: "x \<le> y"
  have pos: "0 \<le> (of_int \<lfloor>z * 100 + 1 / 2\<rfloor> :: rat) / 100" if "0 \<le> z" for z :: rat
    using that by simp
  show ?thesis
  proof (cases "x < 0")
    case xneg: True
    show ?thesis
    proof (cases "y < 0")
      case True
      have "\<lfloor>(- y) * 100 + 1 / 2\<rfloor> \<le> \<lfloor>(- x) * 100 + 1 / 2\<rfloor>"
        using xy by (intro floor_mono) simp
      then show ?thesis using xneg True by (simp add: toFixed2_def divide_right_mono)
    next
      case False
      have "0 \<le> - x" using xneg by simp
      from pos [OF this] have "toFixed2 x \<le> 0" using xneg by (simp add: toFixed2_def)
      moreover have "0 \<le> toFixed2 y" using False by (simp add: toFixed2_nonneg)
      ultimately show ?thesis by simp
    qed
  next
    case False
    then have "\<not> y < 0" using xy by simp
    moreover have "\<lfloor>x * 100 + 1 / 2\<rfloor> \<le> \<lfloor>y * 100 + 1 / 2\<rfloor>"
      using xy by (intro floor_mono) simp
    ultimately show ?thesis using False by (simp add: toFixed2_def divide_right_mono)
  qed
qed

lemma decimal_is_toFixed2: "decimal_15_2 x = toFixed2 x"
  by (simp add: decimal_15_2_def toFixed2_def)

lemma decimal_toFixed2 [simp]: "decimal_15_2 (toFixed2 x) = toFixed2 x"
  using toFixed2_whole_cents [OF whole_cents_toFixed2, of x] by (simp add: decimal_is_toFixed2)

lemma fits_whole_cents: "whole_cents x \<Longrightarrow> - (10 ^ 13) < x \<Longrightarrow> x < 10 ^ 13 \<Longrightarrow> fits_15_2 x"
  by (simp add: fits_15_2_def decimal_whole_cents abs_less_iff)

lemma fits_whole_centsD: "whole_cents x \<Longrightarrow> fits_15_2 x \<Longrightarrow> x < 10 ^ 13"
  by (simp add: fits_15_2_def decimal_whole_cents abs_less_iff)

lemma fits_between:
  assumes "fits_15_2 y" "0 \<le> x" "x \<le> y"
  shows "fits_15_2 x"
proof -
  have "0 \<le> toFixed2 x" using assms(2) by (rule toFixed2_nonneg)
  moreover have "toFixed2 x \<le> toFixed2 y" using assms(3) by (rule toFixed2_mono)
  moreover have "toFixed2 y < 10 ^ 13"
    using assms(1) by (simp add: fits_15_2_def decimal_is_toFixed2 abs_less_iff)
  ultimately show ?thesis by (simp add: fits_15_2_def decimal_is_toFixed2 abs_less_iff)
qed

lemma fits_toFixed2 [simp]: "fits_15_2 (toFixed2 x) = fits_15_2 x"
  by (simp add: fits_15_2_def) (simp add: decimal_is_toFixed2)

subsection \<open>Lookups, storage calls and the outcomes of the handlers\<close>

lemma getUser_SomeD: "getUser s i = Some u \<Longrightarrow> u \<in> set (users s) \<and> user_id u = i"
  unfolding getUser_def by (auto simp: find_Some_iff)

lemma authenticate_InrD:
  "authenticate s i = Inr u \<Longrightarrow>
     getUser s i = Some u \<and> u \<in> set (users s) \<and> user_id u = i \<and> isActive u"
  unfolding authenticate_def by (auto split: option.splits if_splits dest: getUser_SomeD)

lemma authenticate_InlD: "authenticate s i = Inl err \<Longrightarrow> err = UserNotFoundOrInactive"
  unfolding authenticate_def by (auto split: option.splits if_splits)

lemma getUserByAccountNumber_SomeD:
  "getUserByAccountNumber s a = Some u \<Longrightarrow> u \<in> set (users s) \<and> accountNumber u = a"
  unfolding getUserByAccountNumber_def by (auto simp: find_Some_iff)

text \<open>What an accepted storage call has written.\<close>

lemma createTransaction_SomeD:
  assumes "createTransaction e s t = Some s1"
  shows "users s1 = users s" "qrPayments s1 = qrPayments s" "fraudAlerts s1 = fraudAlerts s"
    "transactions s1 = transactions s @
       [\<lparr>fromUserId = fromUserId t, toUserId = toUserId t,
         fromAccountNumber = fromAccountNumber t, toAccountNumber = toAccountNumber t,
         amount = decimal_15_2 (amount t), transactionType = transactionType t,
         description = description t, status = status t,
         referenceNumber = referenceNumber t,
         tx_id = next_tx_id s, createdAt = now e\<rparr>]"
  using assms by (auto simp: createTransaction_def split: if_splits)

lemma updateUserBalance_SomeD:
  assumes "updateUserBalance s i b = Some s'"
  shows "fits_15_2 b"
    "users s' = map (\<lambda>u. if user_id u = i then u\<lparr>balance := decimal_15_2 b\<rparr> else u) (users s)"
    "transactions s' = transactions s" "qrPayments s' = qrPayments s"
    "fraudAlerts s' = fraudAlerts s"
  using assms by (auto simp: updateUserBalance_def split: if_splits)

lemma updateUserWalletBalance_SomeD:
  assumes "updateUserWalletBalance s i b = Some s'"
  shows "fits_15_2 b"
    "users s' =
       map (\<lambda>u. if user_id u = i then u\<lparr>walletBalance := decimal_15_2 b\<rparr> else u) (users s)"
    "transactions s' = transactions s" "qrPayments s' = qrPayments s"
    "fraudAlerts s' = fraudAlerts s"
  using assms by (auto simp: updateUserWalletBalance_def split: if_splits)

lemma updateUserBalance_fits: "fits_15_2 b \<Longrightarrow> \<exists>s'. updateUserBalance s i b = Some s'"
  by (simp add: updateUserBalance_def)

lemma updateUserWalletBalance_fits:
  "fits_15_2 b \<Longrightarrow> \<exists>s'. updateUserWalletBalance s i b = Some s'"
  by (simp add: updateUserWalletBalance_def)

lemma users_markQr [simp]: "users (markQrPaymentAsUsed s i) = users s"
  by (simp add: markQrPaymentAsUsed_def)

lemma transactions_markQr [simp]: "transactions (markQrPaymentAsUsed s k) = transactions s"
  by (simp add: markQrPaymentAsUsed_def)

lemma fraudAlerts_markQr [simp]: "fraudAlerts (markQrPaymentAsUsed s k) = fraudAlerts s"
  by (simp add: markQrPaymentAsUsed_def)

text \<open>The ways a request can end: rejected by a check before any write, refused by the
  database at one of its writes, or done.\<close>

lemma deposit_cases [case_names rejected no_row no_balance succeeded]:
  obtains err where "deposit e s i r = (Inl err, s)" "err \<noteq> InternalServerError"
  | u where "authenticate s i = Inr u" "transactionSchema r"
      "bcrypt_compare e (req_pin r) (pin u)"
      "createTransaction e s (deposit_row e u (req_amount r)) = None"
      "deposit e s i r = (Inl InternalServerError, s)"
  | u s1 where "authenticate s i = Inr u" "transactionSchema r"
      "bcrypt_compare e (req_pin r) (pin u)"
      "createTransaction e s (deposit_row e u (req_amount r)) = Some s1"
      "updateUserBalance s1 (user_id u) (toFixed2 (balance u + req_amount r)) = None"
      "deposit e s i r = (Inl InternalServerError, s1)"
  | u s1 s2 where "authenticate s i = Inr u" "transactionSchema r"
      "bcrypt_compare e (req_pin r) (pin u)"
      "createTransaction e s (deposit_row e u (req_amount r)) = Some s1"
      "updateUserBalance s1 (user_id u) (toFixed2 (balance u + req_amount r)) = Some s2"
      "deposit e s i r =
         (Inr (DepositSuccessful (toFixed2 (balance u + req_amount r)) (req_amount r)), s2)"
proof (cases "authenticate s i")
  case (Inl err)
  then have "deposit e s i r = (Inl err, s)" "err \<noteq> InternalServerError"
    by (auto simp: deposit_def dest: authenticate_InlD)
  then show ?thesis by (rule that(1))
next
  case (Inr u)
  show ?thesis
  proof (cases "transactionSchema r \<and> bcrypt_compare e (req_pin r) (pin u)")
    case False
    then have "deposit e s i r = (Inl InvalidInput, s) \<or> deposit e s i r = (Inl InvalidPIN, s)"
      using Inr by (auto simp: deposit_def)
    then show ?thesis using that(1) by auto
  next
    case True
    show ?thesis
    proof (cases "createTransaction e s (deposit_row e u (req_amount r))")
      case None
      then show ?thesis using that(2) Inr True by (simp add: deposit_def)
    next
      case (Some s1)
      note row = this
      show ?thesis
      proof (cases "updateUserBalance s1 (user_id u) (toFixed2 (balance u + req_amount r))")
        case None
        then show ?thesis using that(3) Inr True row by (simp add: deposit_def)
      next
        case (Some s2)
        then show ?thesis using that(4) Inr True row by (simp add: deposit_def)
      qed
    qed
  qed
qed

lemma withdraw_cases [case_names rejected no_row no_balance no_wallet succeeded]:
  obtains err where "withdraw e s i r = (Inl err, s)" "err \<noteq> InternalServerError"
  | u where "authenticate s i = Inr u" "transactionSchema r"
      "bcrypt_compare e (req_pin r) (pin u)" "req_amount r \<le> balance u"
      "createTransaction e s (withdraw_row e u (req_amount r)) = None"
      "withdraw e s i r = (Inl InternalServerError, s)"
  | u s1 where "authenticate s i = Inr u" "transactionSchema r"
      "bcrypt_compare e (req_pin r) (pin u)" "req_amount r \<le> balance u"
      "createTransaction e s (withdraw_row e u (req_amount r)) = Some s1"
      "updateUserBalance s1 (user_id u) (toFixed2 (balance u - req_amount r)) = None"
      "withdraw e s i r = (Inl InternalServerError, s1)"
  | u s1 s2 where "authenticate s i = Inr u" "transactionSchema r"
      "bcrypt_compare e (req_pin r) (pin u)" "req_amount r \<le> balance u"
      "createTransaction e s (withdraw_row e u (req_amount r)) = Some s1"
      "updateUserBalance s1 (user_id u) (toFixed2 (balance u - req_amount r)) = Some s2"
      "updateUserWalletBalance s2 (user_id u) (toFixed2 (walletBalance u + req_amount r)) = None"
      "withdraw e s i r = (Inl InternalServerError, s2)"
  | u s1 s2 s3 where "authenticate s i = Inr u" "transactionSchema r"
      "bcrypt_compare e (req_pin r) (pin u)" "req_amount r \<le> balance u"
      "createTransaction e s (withdraw_row e u (req_amount r)) = Some s1"
      "updateUserBalance s1 (user_id u) (toFixed2 (balance u - req_amount r)) = Some s2"
      "updateUserWalletBalance s2 (user_id u) (toFixed2 (walletBalance u + req_amount r))
         = Some s3"
      "withdraw e s i r =
         (Inr (WithdrawalSuccessful (toFixed2 (balance u - req_amount r))
                (toFixed2 (walletBalance u + req_amount r)) (req_amount r)), s3)"
proof (cases "authenticate s i")
  case (Inl err)
  then have "withdraw e s i r = (Inl err, s)" "err \<noteq> InternalServerError"
    by (auto simp: withdraw_def dest: authenticate_InlD)
  then show ?thesis by (rule that(1))
next
  case (Inr u)
  show ?thesis
  proof (cases "transactionSchema r \<and> bcrypt_compare e (req_pin r) (pin u) \<and>
      req_amount r \<le> balance u")
    case False
    then have "withdraw e s i r = (Inl InvalidInput, s) \<or> withdraw e s i r = (Inl InvalidPIN, s)
        \<or> withdraw e s i r = (Inl InsufficientBalance, s)"
      using Inr by (auto simp: withdraw_def)
    then show ?thesis using that(1) by auto
  next
    case True
    then have nb: "\<not> balance u < req_amount r" by simp
    show ?thesis
    proof (cases "createTransaction e s (withdraw_row e u (req_amount r))")
      case None
      then show ?thesis using that(2) Inr True nb by (simp add: withdraw_def)
    next
      case (Some s1)
      note row = this
      show ?thesis
      proof (cases "updateUserBalance s1 (user_id u) (toFixed2 (balance u - req_amount r))")
        case None
        then show ?thesis using that(3) Inr True nb row by (simp add: withdraw_def)
      next
        case (Some s2)
        note deb = this
        show ?thesis
        proof (cases "updateUserWalletBalance s2 (user_id u)
            (toFixed2 (walletBalance u + req_amount r))")
          case None
          then show ?thesis using that(4) Inr True nb row deb by (simp add: withdraw_def)
        next
          case (Some s3)
          then show ?thesis using that(5) Inr True nb row deb by (simp add: withdraw_def)
        qed
      qed
    qed
  qed
qed

lemma transfer_cases [case_names rejected no_row no_debit no_credit succeeded]:
  obtains err where "transfer e s i r = (Inl err, s)" "err \<noteq> InternalServerError"
  | u v acc where "authenticate s i = Inr u" "transactionSchema r"
      "req_toAccountNumber r = Some acc" "acc \<noteq> []"
      "bcrypt_compare e (req_pin r) (pin u)"
      "getUserByAccountNumber s acc = Some v" "isActive v" "user_id v \<noteq> user_id u"
      "req_amount r \<le> balance u"
      "createTransaction e s (transfer_row e u v (req_amount r)) = None"
      "transfer e s i r = (Inl InternalServerError, s)"
  | u v acc s1 where "authenticate s i = Inr u" "transactionSchema r"
      "req_toAccountNumber r = Some acc" "acc \<noteq> []"
      "bcrypt_compare e (req_pin r) (pin u)"
      "getUserByAccountNumber s acc = Some v" "isActive v" "user_id v \<noteq> user_id u"
      "req_amount r \<le> balance u"
      "createTransaction e s (transfer_row e u v (req_amount r)) = Some s1"
      "updateUserBalance s1 (user_id u) (toFixed2 (balance u - req_amount r)) = None"
      "transfer e s i r = (Inl InternalServerError, s1)"
  | u v acc s1 s2 where "authenticate s i = Inr u" "transactionSchema r"
      "req_toAccountNumber r = Some acc" "acc \<noteq> []"
      "bcrypt_compare e (req_pin r) (pin u)"
      "getUserByAccountNumber s acc = Some v" "isActive v" "user_id v \<noteq> user_id u"
      "req_amount r \<le> balance u"
      "createTransaction e s (transfer_row e u v (req_amount r)) = Some s1"
      "updateUserBalance s1 (user_id u) (toFixed2 (balance u - req_amount r)) = Some s2"
      "updateUserBalance s2 (user_id v) (toFixed2 (balance v + req_amount r)) = None"
      "transfer e s i r = (Inl InternalServerError, s2)"
  | u v acc s1 s2 s3 where "authenticate s i = Inr u" "transactionSchema r"
      "req_toAccountNumber r = Some acc" "acc \<noteq> []"
      "bcrypt_compare e (req_pin r) (pin u)"
      "getUserByAccountNumber s acc = Some v" "isActive v" "user_id v \<noteq> user_id u"
      "req_amount r \<le> balance u"
      "createTransaction e s (transfer_row e u v (req_amount r)) = Some s1"
      "updateUserBalance s1 (user_id u) (toFixed2 (balance u - req_amount r)) = Some s2"
      "updateUserBalance s2 (user_id v) (toFixed2 (balance v + req_amount r)) = Some s3"
      "transfer e s i r =
         (Inr (TransferSuccessful (toFixed2 (balance u - req_amount r)) (req_amount r)
                (fullName v)), s3)"
proof (cases "authenticate s i")
  case (Inl err)
  then have "transfer e s i r = (Inl err, s)" "err \<noteq> InternalServerError"
    by (auto simp: transfer_def dest: authenticate_InlD)
  then show ?thesis by (rule that(1))
next
  case (Inr u)
  have rej: thesis if "transfer e s i r = (Inl err, s)" "err \<noteq> InternalServerError" for err
    using that by (rule \<open>\<And>err. \<lbrakk>transfer e s i r = (Inl err, s); err \<noteq> InternalServerError\<rbrakk> \<Longrightarrow> thesis\<close>)
  show ?thesis
  proof (cases "transactionSchema r \<and> req_toAccountNumber r \<noteq> None \<and>
      req_toAccountNumber r \<noteq> Some [] \<and> bcrypt_compare e (req_pin r) (pin u)")
    case False
    then have "transfer e s i r = (Inl InvalidInput, s)
        \<or> transfer e s i r = (Inl DestinationAccountNumberRequired, s)
        \<or> transfer e s i r = (Inl InvalidPIN, s)"
      using Inr by (auto simp: transfer_def)
    then show ?thesis using rej by auto
  next
    case True
    then obtain acc where acc: "req_toAccountNumber r = Some acc" "acc \<noteq> []" by auto
    show ?thesis
    proof (cases "getUserByAccountNumber s acc")
      case None
      then have "transfer e s i r = (Inl DestinationAccountNotFound, s)"
        using Inr True acc by (simp add: transfer_def)
      then show ?thesis using rej by auto
    next
      case (Some v)
      note dest = this
      show ?thesis
      proof (cases "isActive v \<and> user_id v \<noteq> user_id u \<and> req_amount r \<le> balance u")
        case False
        then have "transfer e s i r = (Inl DestinationAccountNotFound, s)
            \<or> transfer e s i r = (Inl CannotTransferToSameAccount, s)
            \<or> transfer e s i r = (Inl InsufficientBalance, s)"
          using Inr True acc dest by (auto simp: transfer_def)
        then show ?thesis using rej by auto
      next
        case ok: True
        then have nb: "\<not> balance u < req_amount r" by simp
        show ?thesis
        proof (cases "createTransaction e s (transfer_row e u v (req_amount r))")
          case None
          then show ?thesis
            using that(2) [of u acc v] Inr True acc dest ok nb by (simp add: transfer_def)
        next
          case (Some s1)
          note row = this
          show ?thesis
          proof (cases "updateUserBalance s1 (user_id u) (toFixed2 (balance u - req_amount r))")
            case None
            then show ?thesis
              using that(3) [of u acc v s1] Inr True acc dest ok nb row
              by (simp add: transfer_def)
          next
            case (Some s2)
            note deb = this
            show ?thesis
            proof (cases "updateUserBalance s2 (user_id v)
                (toFixed2 (balance v + req_amount r))")
              case None
              then show ?thesis
                using that(4) [of u acc v s1 s2] Inr True acc dest ok nb row deb
                by (simp add: transfer_def)
            next
              case (Some s3)
              then show ?thesis
                using that(5) [of u acc v s1 s2 s3] Inr True acc dest ok nb row deb
                by (simp add: transfer_def)
            qed
          qed
        qed
      qed
    qed
  qed
qed

lemma qr_scan_reads_InrD:
  assumes "qr_scan_reads e s i c a = Inr (u, q)"
  obtains code where "authenticate s i = Inr u" "c = Some code" "code \<noteq> []"
    "getQrPaymentByCode e s code = Some q"
    "0 < paymentAmount a q" "paymentAmount a q \<le> walletBalance u"
  using assms unfolding qr_scan_reads_def
  by (auto split: sum.splits option.splits if_splits)

lemma qr_scan_reads_InlD:
  "qr_scan_reads e s i c a = Inl err \<Longrightarrow> err \<noteq> InternalServerError"
  unfolding qr_scan_reads_def
  by (auto split: sum.splits option.splits if_splits dest: authenticate_InlD)

lemma qr_scan_cases [case_names rejected no_row no_wallet succeeded]:
  obtains err where "qr_scan e s i c a = (Inl err, s)" "err \<noteq> InternalServerError"
      "qr_scan_reads e s i c a = Inl err"
  | u q where "qr_scan_reads e s i c a = Inr (u, q)"
      "createTransaction e s (payment_row e u q (paymentAmount a q)) = None"
      "qr_scan e s i c a = (Inl InternalServerError, s)"
  | u q s1 where "qr_scan_reads e s i c a = Inr (u, q)"
      "createTransaction e s (payment_row e u q (paymentAmount a q)) = Some s1"
      "updateUserWalletBalance s1 (user_id u) (toFixed2 (walletBalance u - paymentAmount a q))
         = None"
      "qr_scan e s i c a = (Inl InternalServerError, s1)"
  | u q s1 s2 where "qr_scan_reads e s i c a = Inr (u, q)"
      "createTransaction e s (payment_row e u q (paymentAmount a q)) = Some s1"
      "updateUserWalletBalance s1 (user_id u) (toFixed2 (walletBalance u - paymentAmount a q))
         = Some s2"
      "qr_scan e s i c a =
         (Inr (PaymentSuccessful (paymentAmount a q) (merchantName q)
                (toFixed2 (walletBalance u - paymentAmount a q))),
          markQrPaymentAsUsed s2 (qr_id q))"
proof (cases "qr_scan_reads e s i c a")
  case (Inl err)
  then show ?thesis using that(1) qr_scan_reads_InlD [OF Inl] by (simp add: qr_scan_def)
next
  case (Inr p)
  obtain u q where p: "p = (u, q)" by (cases p)
  show ?thesis
  proof (cases "createTransaction e s (payment_row e u q (paymentAmount a q))")
    case None
    then show ?thesis using that(2) Inr p by (simp add: qr_scan_def qr_scan_writes_def)
  next
    case (Some s1)
    show ?thesis
    proof (cases "updateUserWalletBalance s1 (user_id u)
        (toFixed2 (walletBalance u - paymentAmount a q))")
      case None
      then show ?thesis using that(3) Inr p Some by (simp add: qr_scan_def qr_scan_writes_def)
    next
      case (Some s2)
      then show ?thesis
        using that(4) Inr p \<open>createTransaction e s (payment_row e u q (paymentAmount a q)) = Some s1\<close>
        by (simp add: qr_scan_def qr_scan_writes_def)
    qed
  qed
qed

subsection \<open>Balances that stay non-negative\<close>

lemma non_negativeD:
  "non_negative s \<Longrightarrow> u \<in> set (users s) \<Longrightarrow> 0 \<le> balance u \<and> 0 \<le> walletBalance u"
  by (auto simp: non_negative_def list_all_iff)

lemma non_negative_createTransaction:
  "createTransaction e s t = Some s1 \<Longrightarrow> non_negative s1 = non_negative s"
  by (simp add: non_negative_def createTransaction_SomeD)

lemma non_negative_updateUserBalance:
  assumes "non_negative s" "0 \<le> b" "updateUserBalance s i b = Some s'"
  shows "non_negative s'"
proof -
  have "0 \<le> decimal_15_2 b" using assms(2) by (simp add: decimal_is_toFixed2 toFixed2_nonneg)
  then show ?thesis
    using assms(1) updateUserBalance_SomeD(2) [OF assms(3)]
    by (auto simp: non_negative_def list_all_iff)
qed

lemma non_negative_updateUserWalletBalance:
  assumes "non_negative s" "0 \<le> b" "updateUserWalletBalance s i b = Some s'"
  shows "non_negative s'"
proof -
  have "0 \<le> decimal_15_2 b" using assms(2) by (simp add: decimal_is_toFixed2 toFixed2_nonneg)
  then show ?thesis
    using assms(1) updateUserWalletBalance_SomeD(2) [OF assms(3)]
    by (auto simp: non_negative_def list_all_iff)
qed

lemma non_negative_markQr [simp]: "non_negative (markQrPaymentAsUsed s i) = non_negative s"
  by (simp add: non_negative_def)

lemma deposit_non_negative:
  assumes nn: "non_negative s" shows "non_negative (snd (deposit e s i r))"
proof (cases rule: deposit_cases [where e = e and s = s and i = i and r = r])
  case (rejected err)
  then show ?thesis using nn by simp
next
  case (no_row u)
  then show ?thesis using nn by simp
next
  case (no_balance u s1)
  then show ?thesis using nn by (simp add: non_negative_createTransaction)
next
  case (succeeded u s1 s2)
  have "u \<in> set (users s)" using succeeded(1) by (simp add: authenticate_InrD)
  then have "0 \<le> balance u + req_amount r"
    using non_negativeD [OF nn] succeeded(2) by (simp add: transactionSchema_def)
  then have p: "0 \<le> toFixed2 (balance u + req_amount r)" by (rule toFixed2_nonneg)
  have "non_negative s1" using nn succeeded(4) by (simp add: non_negative_createTransaction)
  then have "non_negative s2" using p succeeded(5) by (rule non_negative_updateUserBalance)
  then show ?thesis using succeeded(6) by simp
qed

lemma withdraw_non_negative:
  assumes nn: "non_negative s" shows "non_negative (snd (withdraw e s i r))"
proof -
  have pos: "0 \<le> toFixed2 (balance u - req_amount r)"
      "0 \<le> toFixed2 (walletBalance u + req_amount r)"
    if "authenticate s i = Inr u" "transactionSchema r" "req_amount r \<le> balance u" for u
  proof -
    have "u \<in> set (users s)" using that(1) by (simp add: authenticate_InrD)
    then have "0 \<le> balance u - req_amount r" "0 \<le> walletBalance u + req_amount r"
      using non_negativeD [OF nn] that(2,3) by (simp_all add: transactionSchema_def)
    then show "0 \<le> toFixed2 (balance u - req_amount r)"
      "0 \<le> toFixed2 (walletBalance u + req_amount r)" by (simp_all add: toFixed2_nonneg)
  qed
  show ?thesis
  proof (cases rule: withdraw_cases [where e = e and s = s and i = i and r = r])
    case (rejected err)
    then show ?thesis using nn by simp
  next
    case (no_row u)
    then show ?thesis using nn by simp
  next
    case (no_balance u s1)
    then show ?thesis using nn by (simp add: non_negative_createTransaction)
  next
    case (no_wallet u s1 s2)
    have "non_negative s1" using nn no_wallet(5) by (simp add: non_negative_createTransaction)
    then have "non_negative s2"
      using pos(1) [OF no_wallet(1,2,4)] no_wallet(6) by (rule non_negative_updateUserBalance)
    then show ?thesis using no_wallet(8) by simp
  next
    case (succeeded u s1 s2 s3)
    have "non_negative s1" using nn succeeded(5) by (simp add: non_negative_createTransaction)
    then have "non_negative s2"
      using pos(1) [OF succeeded(1,2,4)] succeeded(6) by (rule non_negative_updateUserBalance)
    then have "non_negative s3"
      using pos(2) [OF succeeded(1,2,4)] succeeded(7)
      by (rule non_negative_updateUserWalletBalance)
    then show ?thesis using succeeded(8) by simp
  qed
qed

lemma transfer_non_negative:
  assumes nn: "non_negative s" shows "non_negative (snd (transfer e s i r))"
proof -
  have pos: "0 \<le> toFixed2 (balance u - req_amount r)"
      "0 \<le> toFixed2 (balance v + req_amount r)"
    if "authenticate s i = Inr u" "transactionSchema r" "req_amount r \<le> balance u"
      "getUserByAccountNumber s acc = Some v" for u v acc
  proof -
    have "u \<in> set (users s)" "v \<in> set (users s)"
      using that(1,4) by (simp_all add: authenticate_InrD getUserByAccountNumber_SomeD)
    then have "0 \<le> balance u - req_amount r" "0 \<le> balance v + req_amount r"
      using non_negativeD [OF nn] that(2,3) by (simp_all add: transactionSchema_def)
    then show "0 \<le> toFixed2 (balance u - req_amount r)"
      "0 \<le> toFixed2 (balance v + req_amount r)" by (simp_all add: toFixed2_nonneg)
  qed
  show ?thesis
  proof (cases rule: transfer_cases [where e = e and s = s and i = i and r = r])
    case (rejected err)
    then show ?thesis using nn by simp
  next
    case (no_row u v acc)
    then show ?thesis using nn by simp
  next
    case (no_debit u v acc s1)
    then show ?thesis using nn by (simp add: non_negative_createTransaction)
  next
    case (no_credit u v acc s1 s2)
    have "non_negative s1" using nn no_credit(10) by (simp add: non_negative_createTransaction)
    then have "non_negative s2"
      using pos(1) [OF no_credit(1,2,9,6)] no_credit(11) by (rule non_negative_updateUserBalance)
    then show ?thesis using no_credit(13) by simp
  next
    case (succeeded u v acc s1 s2 s3)
    have "non_negative s1" using nn succeeded(10) by (simp add: non_negative_createTransaction)
    then have "non_negative s2"
      using pos(1) [OF succeeded(1,2,9,6)] succeeded(11) by (rule non_negative_updateUserBalance)
    then have "non_negative s3"
      using pos(2) [OF succeeded(1,2,9,6)] succeeded(12) by (rule non_negative_updateUserBalance)
    then show ?thesis using succeeded(13) by simp
  qed
qed

lemma qr_scan_non_negative:
  assumes nn: "non_negative s" shows "non_negative (snd (qr_scan e s i c a))"
proof (cases rule: qr_scan_cases [where e = e and s = s and i = i and c = c and a = a])
  case (rejected err)
  then show ?thesis using nn by simp
next
  case (no_row u q)
  then show ?thesis using nn by simp
next
  case (no_wallet u q s1)
  then show ?thesis using nn by (simp add: non_negative_createTransaction)
next
  case (succeeded u q s1 s2)
  from succeeded(1) have "paymentAmount a q \<le> walletBalance u" by (rule qr_scan_reads_InrD)
  then have p: "0 \<le> toFixed2 (walletBalance u - paymentAmount a q)"
    by (simp add: toFixed2_nonneg)
  have "non_negative s1" using nn succeeded(2) by (simp add: non_negative_createTransaction)
  then have "non_negative s2"
    using p succeeded(3) by (rule non_negative_updateUserWalletBalance)
  then show ?thesis using succeeded(4) by simp
qed

lemma step_non_negative: "non_negative s \<Longrightarrow> non_negative (snd (step e s x))"
  by (cases x)
     (simp_all add: deposit_non_negative withdraw_non_negative transfer_non_negative
        qr_scan_non_negative)

lemma run_non_negative: "non_negative s \<Longrightarrow> non_negative (run s xs)"
  by (induction xs arbitrary: s) (auto simp: step_non_negative)

text \<open>A request that has succeeded went through all its writes.\<close>

lemma deposit_Inr:
  assumes "deposit e s i r = (Inr x, s')"
  obtains u s1 where "authenticate s i = Inr u" "transactionSchema r"
    "bcrypt_compare e (req_pin r) (pin u)"
    "createTransaction e s (deposit_row e u (req_amount r)) = Some s1"
    "updateUserBalance s1 (user_id u) (toFixed2 (balance u + req_amount r)) = Some s'"
    "x = DepositSuccessful (toFixed2 (balance u + req_amount r)) (req_amount r)"
  using assms by (cases rule: deposit_cases [where e = e and s = s and i = i and r = r]) auto

lemma withdraw_Inr:
  assumes "withdraw e s i r = (Inr x, s')"
  obtains u s1 s2 where "authenticate s i = Inr u" "transactionSchema r"
    "bcrypt_compare e (req_pin r) (pin u)" "req_amount r \<le> balance u"
    "createTransaction e s (withdraw_row e u (req_amount r)) = Some s1"
    "updateUserBalance s1 (user_id u) (toFixed2 (balance u - req_amount r)) = Some s2"
    "updateUserWalletBalance s2 (user_id u) (toFixed2 (walletBalance u + req_amount r))
       = Some s'"
    "x = WithdrawalSuccessful (toFixed2 (balance u - req_amount r))
           (toFixed2 (walletBalance u + req_amount r)) (req_amount r)"
  using assms by (cases rule: withdraw_cases [where e = e and s = s and i = i and r = r]) auto

lemma transfer_Inr:
  assumes "transfer e s i r = (Inr x, s')"
  obtains u v acc s1 s2 where "authenticate s i = Inr u" "transactionSchema r"
    "req_toAccountNumber r = Some acc" "acc \<noteq> []"
    "bcrypt_compare e (req_pin r) (pin u)"
    "getUserByAccountNumber s acc = Some v" "isActive v" "user_id v \<noteq> user_id u"
    "req_amount r \<le> balance u"
    "createTransaction e s (transfer_row e u v (req_amount r)) = Some s1"
    "updateUserBalance s1 (user_id u) (toFixed2 (balance u - req_amount r)) = Some s2"
    "updateUserBalance s2 (user_id v) (toFixed2 (balance v + req_amount r)) = Some s'"
    "x = TransferSuccessful (toFixed2 (balance u - req_amount r)) (req_amount r) (fullName v)"
  using assms by (cases rule: transfer_cases [where e = e and s = s and i = i and r = r]) auto

lemma qr_scan_Inr:
  assumes "qr_scan e s i c a = (Inr x, s')"
  obtains u q code s1 s2 where "authenticate s i = Inr u" "c = Some code" "code \<noteq> []"
    "getQrPaymentByCode e s code = Some q"
    "0 < paymentAmount a q" "paymentAmount a q \<le> walletBalance u"
    "createTransaction e s (payment_row e u q (paymentAmount a q)) = Some s1"
    "updateUserWalletBalance s1 (user_id u) (toFixed2 (walletBalance u - paymentAmount a q))
       = Some s2"
    "s' = markQrPaymentAsUsed s2 (qr_id q)"
    "x = PaymentSuccessful (paymentAmount a q) (merchantName q)
           (toFixed2 (walletBalance u - paymentAmount a q))"
proof (cases rule: qr_scan_cases [where e = e and s = s and i = i and c = c and a = a])
  case (succeeded u q s1 s2)
  from succeeded(1) obtain code where "authenticate s i = Inr u" "c = Some code" "code \<noteq> []"
    "getQrPaymentByCode e s code = Some q"
    "0 < paymentAmount a q" "paymentAmount a q \<le> walletBalance u"
    by (rule qr_scan_reads_InrD)
  then show ?thesis using that succeeded assms by auto
qed (use assms in auto)

text \<open>A request rejected by one of its checks has written nothing.\<close>

lemma deposit_Inl: "deposit e s i r = (Inl err, s') \<Longrightarrow> err \<noteq> InternalServerError \<Longrightarrow> s' = s"
  by (cases rule: deposit_cases [where e = e and s = s and i = i and r = r]) auto

lemma withdraw_Inl: "withdraw e s i r = (Inl err, s') \<Longrightarrow> err \<noteq> InternalServerError \<Longrightarrow> s' = s"
  by (cases rule: withdraw_cases [where e = e and s = s and i = i and r = r]) auto

lemma transfer_Inl: "transfer e s i r = (Inl err, s') \<Longrightarrow> err \<noteq> InternalServerError \<Longrightarrow> s' = s"
  by (cases rule: transfer_cases [where e = e and s = s and i = i and r = r]) auto

lemma qr_scan_Inl: "qr_scan e s i c a = (Inl err, s') \<Longrightarrow> err \<noteq> InternalServerError \<Longrightarrow> s' = s"
  by (cases rule: qr_scan_cases [where e = e and s = s and i = i and c = c and a = a]) auto

subsection \<open>C1: balances never go below zero\<close>

text \<open>
  C1. Starting from a database in which every balance and wallet balance is at least 0,
  both stay at least 0 after every operation of any sequence of deposits, withdrawals to
  the wallet, transfers and QR wallet payments (every prefix of the sequence). A deposit
  succeeds only with a positive amount and writes the rounded sum into the balance of the
  depositor, which does not lower a two-decimal balance; a withdrawal and a transfer succeed
  only when the amount is at most the balance of the requester; a QR payment succeeds only
  when the resolved amount is positive and at most the wallet balance of the payer.
\<close>

theorem non_negativity:
  assumes "non_negative s"
  shows "(\<forall>n. non_negative (run s (take n xs))) \<and>
    (\<forall>e i r x s'. deposit e s i r = (Inr x, s') \<longrightarrow>
       (\<exists>u. getUser s i = Some u \<and> 0 < req_amount r \<and>
          users s' = map (\<lambda>w. if user_id w = i
             then w\<lparr>balance := toFixed2 (balance u + req_amount r)\<rparr> else w) (users s) \<and>
          (whole_cents (balance u) \<longrightarrow> balance u \<le> toFixed2 (balance u + req_amount r)))) \<and>
    (\<forall>e i r x s'. withdraw e s i r = (Inr x, s') \<longrightarrow>
       (\<exists>u. getUser s i = Some u \<and> req_amount r \<le> balance u)) \<and>
    (\<forall>e i r x s'. transfer e s i r = (Inr x, s') \<longrightarrow>
       (\<exists>u. getUser s i = Some u \<and> req_amount r \<le> balance u)) \<and>
    (\<forall>e i c a x s'. qr_scan e s i c a = (Inr x, s') \<longrightarrow>
       (\<exists>u q. getUser s i = Some u \<and> getQrPaymentByCode e s (the c) = Some q \<and>
          0 < paymentAmount a q \<and> paymentAmount a q \<le> walletBalance u))"
proof (intro conjI allI impI)
  fix n show "non_negative (run s (take n xs))"
    using assms by (rule run_non_negative)
next
  fix e i r x s' assume "deposit e s i r = (Inr x, s')"
  then obtain u s1 where u: "authenticate s i = Inr u" "transactionSchema r"
    and row: "createTransaction e s (deposit_row e u (req_amount r)) = Some s1"
    and upd: "updateUserBalance s1 (user_id u) (toFixed2 (balance u + req_amount r)) = Some s'"
    by (rule deposit_Inr)
  from u(1) have g: "getUser s i = Some u" "user_id u = i" by (simp_all add: authenticate_InrD)
  have pos: "0 < req_amount r" using u(2) by (simp add: transactionSchema_def)
  have "balance u \<le> toFixed2 (balance u + req_amount r)" if "whole_cents (balance u)"
  proof -
    have "toFixed2 (balance u) \<le> toFixed2 (balance u + req_amount r)"
      using pos by (intro toFixed2_mono) simp
    then show ?thesis using that by (simp add: toFixed2_whole_cents)
  qed
  moreover have "users s' = map (\<lambda>w. if user_id w = i
             then w\<lparr>balance := toFixed2 (balance u + req_amount r)\<rparr> else w) (users s)"
    using updateUserBalance_SomeD(2) [OF upd] createTransaction_SomeD(1) [OF row] g(2)
    by simp
  ultimately show "\<exists>u. getUser s i = Some u \<and> 0 < req_amount r \<and>
          users s' = map (\<lambda>w. if user_id w = i
             then w\<lparr>balance := toFixed2 (balance u + req_amount r)\<rparr> else w) (users s) \<and>
          (whole_cents (balance u) \<longrightarrow> balance u \<le> toFixed2 (balance u + req_amount r))"
    using g pos by (intro exI [of _ u]) simp
next
  fix e i r x s' assume "withdraw e s i r = (Inr x, s')"
  then obtain u where "authenticate s i = Inr u" "req_amount r \<le> balance u"
    by (rule withdraw_Inr)
  then show "\<exists>u. getUser s i = Some u \<and> req_amount r \<le> balance u"
    by (auto dest: authenticate_InrD)
next
  fix e i r x s' assume "transfer e s i r = (Inr x, s')"
  then obtain u where "authenticate s i = Inr u" "req_amount r \<le> balance u"
    by (rule transfer_Inr)
  then show "\<exists>u. getUser s i = Some u \<and> req_amount r \<le> balance u"
    by (auto dest: authenticate_InrD)
next
  fix e i c a x s' assume "qr_scan e s i c a = (Inr x, s')"
  then obtain u q code where "authenticate s i = Inr u" "c = Some code"
    "getQrPaymentByCode e s code = Some q"
    "0 < paymentAmount a q" "paymentAmount a q \<le> walletBalance u"
    by (rule qr_scan_Inr)
  then show "\<exists>u q. getUser s i = Some u \<and> getQrPaymentByCode e s (the c) = Some q \<and>
          0 < paymentAmount a q \<and> paymentAmount a q \<le> walletBalance u"
    by (auto dest: authenticate_InrD)
qed


text \<open>The five operations of \<open>ops0\<close> on \<open>db0\<close>: the third one (a transfer of 4000 from a
  balance of 3000) is rejected, the others succeed.\<close>

theorem non_negativity_witness:
  "non_negative db0 \<and> non_negative (run db0 ops0) \<and>
   map balance (users (run db0 ops0)) = [2250, 8500, 3000] \<and>
   map walletBalance (users (run db0 ops0)) = [2000, 750, 500]"
proof -
  have h: "non_negative db0" by code_simp
  from non_negativity [OF h, of ops0]
  have "\<forall>n. non_negative (run db0 (take n ops0))" by (rule conjunct1)
  then have "non_negative (run db0 (take 5 ops0))" by (rule spec)
  moreover have "take 5 ops0 = ops0" by (simp add: ops0_def)
  moreover have "map balance (users (run db0 ops0)) = [2250, 8500, 3000]" by code_simp
  moreover have "map walletBalance (users (run db0 ops0)) = [2000, 750, 500]" by code_simp
  ultimately show ?thesis using h by simp
qed

subsection \<open>The users table under updates\<close>

lemma find_user_id:
  "distinct (map user_id us) \<Longrightarrow> u \<in> set us \<Longrightarrow> find (\<lambda>w. user_id w = user_id u) us = Some u"
  by (induction us) (auto simp: image_iff)

lemma getUser_member:
  "distinct (map user_id (users s)) \<Longrightarrow> u \<in> set (users s) \<Longrightarrow> getUser s (user_id u) = Some u"
  by (simp add: getUser_def find_user_id)

lemma find_map_user:
  assumes "\<And>w. user_id (g w) = user_id w"
  shows "find (\<lambda>w. user_id w = j) (map g us) = map_option g (find (\<lambda>w. user_id w = j) us)"
  by (induction us) (simp_all add: assms)

lemma getUser_updateUserBalance:
  assumes "updateUserBalance s i b = Some s'"
  shows "getUser s' j =
     map_option (\<lambda>w. if user_id w = i then w\<lparr>balance := decimal_15_2 b\<rparr> else w) (getUser s j)"
  unfolding getUser_def updateUserBalance_SomeD(2) [OF assms]
  by (simp add: find_map_user)

lemma getUser_updateUserWalletBalance:
  assumes "updateUserWalletBalance s i b = Some s'"
  shows "getUser s' j =
     map_option (\<lambda>w. if user_id w = i then w\<lparr>walletBalance := decimal_15_2 b\<rparr> else w)
       (getUser s j)"
  unfolding getUser_def updateUserWalletBalance_SomeD(2) [OF assms]
  by (simp add: find_map_user)

lemma getUser_createTransaction:
  "createTransaction e s t = Some s1 \<Longrightarrow> getUser s1 j = getUser s j"
  by (simp add: getUser_def createTransaction_SomeD)

lemma getUser_markQr [simp]: "getUser (markQrPaymentAsUsed s k) j = getUser s j"
  by (simp add: getUser_def)

lemma sum_list_update_user:
  "distinct (map user_id us) \<Longrightarrow> u \<in> set us \<Longrightarrow>
   sum_list (map f (map (\<lambda>w. if user_id w = user_id u then g w else w) us)) =
   sum_list (map f us) - f u + (f (g u) :: rat)"
proof (induction us)
  case Nil
  then show ?case by simp
next
  case (Cons w ws)
  show ?case
  proof (cases "w = u")
    case True
    then have "\<forall>x \<in> set ws. user_id x \<noteq> user_id u" using Cons.prems by (auto simp: image_iff)
    then have "map (\<lambda>w. if user_id w = user_id u then g w else w) ws = ws"
      by (simp add: map_idI)
    then show ?thesis using True by simp
  next
    case False
    then have "u \<in> set ws" "user_id w \<noteq> user_id u" using Cons.prems by auto
    then show ?thesis using Cons by simp
  qed
qed

lemma total_money_updateUserBalance:
  assumes "distinct (map user_id (users s))" "getUser s i = Some u"
    "updateUserBalance s i b = Some s'"
  shows "total_money s' = total_money s - balance u + decimal_15_2 b"
proof -
  from assms(2) have u: "u \<in> set (users s)" "user_id u = i" by (simp_all add: getUser_SomeD)
  show ?thesis
    unfolding total_money_def updateUserBalance_SomeD(2) [OF assms(3)]
    using sum_list_update_user [OF assms(1) u(1), of "\<lambda>u. balance u + walletBalance u"
        "\<lambda>w. w\<lparr>balance := decimal_15_2 b\<rparr>"] u(2)
    by simp
qed

lemma total_money_updateUserWalletBalance:
  assumes "distinct (map user_id (users s))" "getUser s i = Some u"
    "updateUserWalletBalance s i b = Some s'"
  shows "total_money s' = total_money s - walletBalance u + decimal_15_2 b"
proof -
  from assms(2) have u: "u \<in> set (users s)" "user_id u = i" by (simp_all add: getUser_SomeD)
  show ?thesis
    unfolding total_money_def updateUserWalletBalance_SomeD(2) [OF assms(3)]
    using sum_list_update_user [OF assms(1) u(1), of "\<lambda>u. balance u + walletBalance u"
        "\<lambda>w. w\<lparr>walletBalance := decimal_15_2 b\<rparr>"] u(2)
    by simp
qed

lemma total_money_createTransaction:
  "createTransaction e s t = Some s1 \<Longrightarrow> total_money s1 = total_money s"
  by (simp add: total_money_def createTransaction_SomeD)

lemma total_money_markQr [simp]: "total_money (markQrPaymentAsUsed s k) = total_money s"
  by (simp add: total_money_def)

lemma ids_updateUserBalance:
  "updateUserBalance s i b = Some s' \<Longrightarrow> map user_id (users s') = map user_id (users s)"
  by (simp add: updateUserBalance_SomeD comp_def if_distrib [of user_id] cong: if_cong)

lemma ids_updateUserWalletBalance:
  "updateUserWalletBalance s i b = Some s' \<Longrightarrow> map user_id (users s') = map user_id (users s)"
  by (simp add: updateUserWalletBalance_SomeD comp_def if_distrib [of user_id] cong: if_cong)

lemma whole_cents_decimal [simp]: "whole_cents (decimal_15_2 x)"
  by (simp add: decimal_is_toFixed2 whole_cents_toFixed2)

lemma users_wf_updateUserBalance:
  assumes "users_wf s" "updateUserBalance s i b = Some s'"
  shows "users_wf s'"
  using assms(1) unfolding users_wf_def ids_updateUserBalance [OF assms(2)]
  by (auto simp: updateUserBalance_SomeD(2) [OF assms(2)] list_all_iff)

lemma users_wf_updateUserWalletBalance:
  assumes "users_wf s" "updateUserWalletBalance s i b = Some s'"
  shows "users_wf s'"
  using assms(1) unfolding users_wf_def ids_updateUserWalletBalance [OF assms(2)]
  by (auto simp: updateUserWalletBalance_SomeD(2) [OF assms(2)] list_all_iff)

lemma users_wf_createTransaction:
  "createTransaction e s t = Some s1 \<Longrightarrow> users_wf s1 = users_wf s"
  by (simp add: users_wf_def createTransaction_SomeD)

lemma users_wf_markQr [simp]: "users_wf (markQrPaymentAsUsed s k) = users_wf s"
  by (simp add: users_wf_def)

lemma users_wfD:
  "users_wf s \<Longrightarrow> u \<in> set (users s) \<Longrightarrow> whole_cents (balance u) \<and> whole_cents (walletBalance u)"
  by (auto simp: users_wf_def list_all_iff)

lemma users_wf_distinct: "users_wf s \<Longrightarrow> distinct (map user_id (users s))"
  by (simp add: users_wf_def)

lemma same_user_id:
  assumes "distinct (map user_id (users s))" "w \<in> set (users s)" "getUser s i = Some u"
    "user_id w = i"
  shows "w = u"
proof -
  from assms(1,2) have "getUser s (user_id w) = Some w" by (rule getUser_member)
  with assms(3,4) show ?thesis by simp
qed

text \<open>With non-negative entries one member, and two different members together, hold at
  most the sum.\<close>

lemma member_le_sum:
  "\<forall>x \<in> set xs. 0 \<le> f x \<Longrightarrow> x \<in> set xs \<Longrightarrow> f x \<le> (sum_list (map f xs) :: rat)"
proof (induction xs)
  case Nil
  then show ?case by simp
next
  case (Cons y ys)
  have "0 \<le> sum_list (map f ys)" using Cons.prems(1) by (intro sum_list_nonneg) auto
  then show ?case using Cons by auto
qed

lemma two_members_le_sum:
  "\<forall>x \<in> set xs. 0 \<le> f x \<Longrightarrow> x \<in> set xs \<Longrightarrow> y \<in> set xs \<Longrightarrow> x \<noteq> y \<Longrightarrow>
     f x + f y \<le> (sum_list (map f xs) :: rat)"
proof (induction xs)
  case Nil
  then show ?case by simp
next
  case (Cons z zs)
  have nn: "\<forall>x \<in> set zs. 0 \<le> f x" "0 \<le> f z" using Cons.prems(1) by auto
  consider "z = x" "y \<in> set zs" | "z = y" "x \<in> set zs" | "x \<in> set zs" "y \<in> set zs"
    using Cons.prems by auto
  then show ?case
  proof cases
    case 1
    then show ?thesis using member_le_sum [OF nn(1), of y] by simp
  next
    case 2
    then show ?thesis using member_le_sum [OF nn(1), of x] by simp
  next
    case 3
    then show ?thesis using Cons.IH [OF nn(1)] Cons.prems(4) nn(2) by simp
  qed
qed

lemma balances_le_total:
  assumes "non_negative s" "u \<in> set (users s)"
  shows "balance u \<le> total_money s" "walletBalance u \<le> total_money s"
    "balance u + walletBalance u \<le> total_money s"
proof -
  have nn: "\<forall>x \<in> set (users s). 0 \<le> balance x + walletBalance x"
    using assms(1) by (auto simp: non_negative_def list_all_iff)
  from member_le_sum [OF nn assms(2)]
  show "balance u + walletBalance u \<le> total_money s" by (simp add: total_money_def)
  then show "balance u \<le> total_money s" "walletBalance u \<le> total_money s"
    using non_negativeD [OF assms] by simp_all
qed

lemma two_balances_le_total:
  assumes "non_negative s" "u \<in> set (users s)" "v \<in> set (users s)" "user_id u \<noteq> user_id v"
  shows "balance u + balance v \<le> total_money s"
proof -
  have nn: "\<forall>x \<in> set (users s). 0 \<le> balance x + walletBalance x"
    using assms(1) by (auto simp: non_negative_def list_all_iff)
  have "u \<noteq> v" using assms(4) by auto
  from two_members_le_sum [OF nn assms(2,3) this]
  have "balance u + walletBalance u + (balance v + walletBalance v) \<le> total_money s"
    by (simp add: total_money_def)
  then show ?thesis using non_negativeD [OF assms(1,2)] non_negativeD [OF assms(1,3)] by simp
qed

subsection \<open>C2: transfers conserve the total\<close>

text \<open>One transfer of a two-decimal amount among two-decimal, non-negative balances whose
  total is below the capacity of the balance column.\<close>

lemma transfer_within_capacity:
  assumes wf: "users_wf s" and nn: "non_negative s" and cap: "total_money s < 10 ^ 13"
    and c: "whole_cents (req_amount r)"
  obtains err where "transfer e s i r = (Inl err, s)"
  | x s' u v where "transfer e s i r = (Inr x, s')" "getUser s i = Some u"
      "getUserByAccountNumber s (the (req_toAccountNumber r)) = Some v"
      "user_id v \<noteq> i"
      "getUser s' i = Some (u\<lparr>balance := balance u - req_amount r\<rparr>)"
      "getUser s' (user_id v) = Some (v\<lparr>balance := balance v + req_amount r\<rparr>)"
      "total_money s' = total_money s" "users_wf s'"
proof -
  have d: "distinct (map user_id (users s))" using wf by (rule users_wf_distinct)
  have fits: "fits_15_2 (toFixed2 (balance u - req_amount r))"
      "fits_15_2 (toFixed2 (balance v + req_amount r))"
      "toFixed2 (balance u - req_amount r) = balance u - req_amount r"
      "toFixed2 (balance v + req_amount r) = balance v + req_amount r"
      "decimal_15_2 (balance u - req_amount r) = balance u - req_amount r"
      "decimal_15_2 (balance v + req_amount r) = balance v + req_amount r"
    if u: "authenticate s i = Inr u" and v: "getUserByAccountNumber s acc = Some v"
      and ne: "user_id v \<noteq> user_id u" and le: "req_amount r \<le> balance u"
      and sch: "transactionSchema r" for u v acc
  proof -
    have uin: "u \<in> set (users s)" and vin: "v \<in> set (users s)"
      using u v by (simp_all add: authenticate_InrD getUserByAccountNumber_SomeD)
    have pos: "0 < req_amount r" using sch by (simp add: transactionSchema_def)
    have wu: "whole_cents (balance u - req_amount r)"
      using users_wfD [OF wf uin] c by (simp add: whole_cents_diff)
    have wv: "whole_cents (balance v + req_amount r)"
      using users_wfD [OF wf vin] c by (simp add: whole_cents_add)
    have "balance u - req_amount r \<le> total_money s"
      using balances_le_total(1) [OF nn uin] pos by simp
    then have bu: "balance u - req_amount r < 10 ^ 13" "- (10 ^ 13) < balance u - req_amount r"
      using cap le by simp_all
    have "balance u + balance v \<le> total_money s"
      using nn uin vin ne by (intro two_balances_le_total) auto
    then have "balance v + req_amount r \<le> total_money s" using le by simp
    then have bv: "balance v + req_amount r < 10 ^ 13" "- (10 ^ 13) < balance v + req_amount r"
      using cap non_negativeD [OF nn vin] pos by simp_all
    show "toFixed2 (balance u - req_amount r) = balance u - req_amount r"
      using wu by (rule toFixed2_whole_cents)
    show "toFixed2 (balance v + req_amount r) = balance v + req_amount r"
      using wv by (rule toFixed2_whole_cents)
    show "decimal_15_2 (balance u - req_amount r) = balance u - req_amount r"
      using wu by (rule decimal_whole_cents)
    show "decimal_15_2 (balance v + req_amount r) = balance v + req_amount r"
      using wv by (rule decimal_whole_cents)
    show "fits_15_2 (toFixed2 (balance u - req_amount r))"
      using fits_whole_cents [OF wu bu(2,1)] by simp
    show "fits_15_2 (toFixed2 (balance v + req_amount r))"
      using fits_whole_cents [OF wv bv(2,1)] by simp
  qed
  show ?thesis
  proof (cases rule: transfer_cases [where e = e and s = s and i = i and r = r])
    case (rejected err)
    then show ?thesis using that(1) by blast
  next
    case (no_row u v acc)
    then show ?thesis using that(1) by blast
  next
    case (no_debit u v acc s1)
    from fits(1) [OF no_debit(1,6,8,9,2)] no_debit(11)
    show ?thesis by (simp add: updateUserBalance_def)
  next
    case (no_credit u v acc s1 s2)
    from fits(2) [OF no_credit(1,6,8,9,2)] no_credit(12)
    show ?thesis by (simp add: updateUserBalance_def)
  next
    case (succeeded u v acc s1 s2 s3)
    note f = fits [OF succeeded(1,6,8,9,2)]
    have u: "getUser s i = Some u" "u \<in> set (users s)" "user_id u = i"
      using succeeded(1) by (simp_all add: authenticate_InrD)
    have vin: "v \<in> set (users s)" using succeeded(6) by (simp add: getUserByAccountNumber_SomeD)
    have gv: "getUser s (user_id v) = Some v" using d vin by (rule getUser_member)
    have d1: "distinct (map user_id (users s1))"
      using d createTransaction_SomeD(1) [OF succeeded(10)] by simp
    have g1: "getUser s1 j = getUser s j" for j
      using succeeded(10) by (rule getUser_createTransaction)
    have g2u: "getUser s2 i = Some (u\<lparr>balance := balance u - req_amount r\<rparr>)"
      using getUser_updateUserBalance [OF succeeded(11), of i] u f(3,5) by (simp add: g1)
    have g2v: "getUser s2 (user_id v) = Some v"
      using getUser_updateUserBalance [OF succeeded(11), of "user_id v"] gv succeeded(8)
      by (simp add: g1)
    have d2: "distinct (map user_id (users s2))"
      using d1 ids_updateUserBalance [OF succeeded(11)] by simp
    have t2: "total_money s2 = total_money s - balance u + (balance u - req_amount r)"
      using total_money_updateUserBalance [OF d1 _ succeeded(11), of u] u f(3,5)
        total_money_createTransaction [OF succeeded(10)] by (simp add: g1)
    have t3: "total_money s3 = total_money s2 - balance v + (balance v + req_amount r)"
      using total_money_updateUserBalance [OF d2 g2v succeeded(12)] f(4,6) by simp
    have g3u: "getUser s3 i = Some (u\<lparr>balance := balance u - req_amount r\<rparr>)"
      using getUser_updateUserBalance [OF succeeded(12), of i] g2u succeeded(8) u(3) by simp
    have g3v: "getUser s3 (user_id v) = Some (v\<lparr>balance := balance v + req_amount r\<rparr>)"
      using getUser_updateUserBalance [OF succeeded(12), of "user_id v"] g2v f(4,6) by simp
    have wf3: "users_wf s3"
      using wf users_wf_createTransaction [OF succeeded(10)]
        users_wf_updateUserBalance [OF _ succeeded(11)]
        users_wf_updateUserBalance [OF _ succeeded(12)] by simp
    have "getUserByAccountNumber s (the (req_toAccountNumber r)) = Some v"
      using succeeded(3,6) by simp
    moreover have "user_id v \<noteq> i" using succeeded(8) u(3) by simp
    moreover have "total_money s3 = total_money s" using t2 t3 by simp
    ultimately show ?thesis using that(2) succeeded(13) u(1) g3u g3v wf3 by blast
  qed
qed

lemma transfer_keeps_total:
  assumes "users_wf s" "non_negative s" "total_money s < 10 ^ 13" "whole_cents (req_amount r)"
  shows "total_money (snd (transfer e s i r)) = total_money s \<and>
         users_wf (snd (transfer e s i r))"
  by (rule transfer_within_capacity [OF assms, where e = e and i = i]) (simp_all add: assms)

lemma run_transfers_total_money:
  "users_wf s \<Longrightarrow> non_negative s \<Longrightarrow> total_money s < 10 ^ 13 \<Longrightarrow>
   \<forall>p \<in> set xs. cents_transfer (snd p) \<Longrightarrow> total_money (run s xs) = total_money s"
proof (induction xs arbitrary: s)
  case Nil
  then show ?case by simp
next
  case (Cons p xs)
  obtain e x where p: "p = (e, x)" by (cases p)
  with Cons.prems(4) have "cents_transfer x" by simp
  then obtain i r where x: "x = Transfer i r" and c: "whole_cents (req_amount r)"
    by (cases x) simp_all
  let ?s = "snd (transfer e s i r)"
  have k: "total_money ?s = total_money s" "users_wf ?s"
    using transfer_keeps_total [OF Cons.prems(1,2,3) c, of e i] by simp_all
  have nn: "non_negative ?s" using Cons.prems(2) by (rule transfer_non_negative)
  have "total_money (run ?s xs) = total_money ?s"
    using k nn Cons.prems(3,4) by (intro Cons.IH) simp_all
  then show ?case using k by (simp add: p x)
qed

text \<open>
  C2 (as amended). Among users with distinct ids and non-negative two-decimal balances
  whose total is below \<open>10^13\<close>, the capacity of a balance column, any sequence of transfer
  requests whose amounts have at most two decimals leaves the sum of balance +
  walletBalance over all users unchanged. Each such transfer that succeeds lowers the
  balance of the sender by exactly the amount and raises the balance of the receiver by
  exactly the amount; one that fails leaves the database as it was.
\<close>

theorem transfer_conservation:
  assumes "users_wf s" "non_negative s" "total_money s < 10 ^ 13"
  shows "((\<forall>p \<in> set xs. cents_transfer (snd p)) \<longrightarrow> total_money (run s xs) = total_money s) \<and>
    (\<forall>e i r x s'. whole_cents (req_amount r) \<and> transfer e s i r = (Inr x, s') \<longrightarrow>
       (\<exists>u v. getUser s i = Some u \<and>
          getUserByAccountNumber s (the (req_toAccountNumber r)) = Some v \<and> user_id v \<noteq> i \<and>
          getUser s' i = Some (u\<lparr>balance := balance u - req_amount r\<rparr>) \<and>
          getUser s' (user_id v) = Some (v\<lparr>balance := balance v + req_amount r\<rparr>))) \<and>
    (\<forall>e i r err s'. whole_cents (req_amount r) \<and> transfer e s i r = (Inl err, s') \<longrightarrow> s' = s)"
proof (intro conjI allI impI)
  assume "\<forall>p \<in> set xs. cents_transfer (snd p)"
  with assms show "total_money (run s xs) = total_money s"
    by (rule run_transfers_total_money)
next
  fix e i r x s'
  assume "whole_cents (req_amount r) \<and> transfer e s i r = (Inr x, s')"
  then have c: "whole_cents (req_amount r)" and t: "transfer e s i r = (Inr x, s')"
    by simp_all
  show "\<exists>u v. getUser s i = Some u \<and>
          getUserByAccountNumber s (the (req_toAccountNumber r)) = Some v \<and> user_id v \<noteq> i \<and>
          getUser s' i = Some (u\<lparr>balance := balance u - req_amount r\<rparr>) \<and>
          getUser s' (user_id v) = Some (v\<lparr>balance := balance v + req_amount r\<rparr>)"
    by (rule transfer_within_capacity [OF assms c, where e = e and i = i]) (use t in auto)
next
  fix e i r err s'
  assume "whole_cents (req_amount r) \<and> transfer e s i r = (Inl err, s')"
  then have c: "whole_cents (req_amount r)" and t: "transfer e s i r = (Inl err, s')"
    by simp_all
  show "s' = s"
    by (rule transfer_within_capacity [OF assms c, where e = e and i = i]) (use t in auto)
qed

theorem transfer_conservation_witness:
  "users_wf db0 \<and> non_negative db0 \<and> total_money db0 < 10 ^ 13 \<and>
   list_all (\<lambda>p. cents_transfer (snd p)) transfers0 \<and>
   total_money (run db0 transfers0) = total_money db0 \<and> total_money db0 = 17250 \<and>
   map balance (users (run db0 transfers0)) = [7999 / 2, 212204 / 25, 150617 / 50]"
proof -
  have h: "users_wf db0" by code_simp
  have n: "non_negative db0" by code_simp
  have t: "total_money db0 = 17250" by code_simp
  then have k: "total_money db0 < 10 ^ 13" by simp
  have c: "list_all (\<lambda>p. cents_transfer (snd p)) transfers0" by code_simp
  then have "\<forall>p \<in> set transfers0. cents_transfer (snd p)" by (simp add: list_all_iff)
  with transfer_conservation [OF h n k, of transfers0]
  have "total_money (run db0 transfers0) = total_money db0" by blast
  moreover have "map balance (users (run db0 transfers0)) = [7999 / 2, 212204 / 25, 150617 / 50]"
    by code_simp
  ultimately show ?thesis using h n k c t by simp
qed

text \<open>A transfer of 0.125 from a balance of 5000 to a balance of 7500 succeeds: the sender
  keeps 4999.88, the receiver gets 7500.13, and the total grows by 0.01. A transfer of
  6000000000000 from a balance of 9000000000000 to a balance of 5000000000000 inserts its
  row and lowers the balance of the sender; the balance of the receiver would reach
  \<open>10^13\<close>, its update is refused, the request ends with status 500, and the total has
  fallen by the amount.\<close>

theorem transfer_conservation_counterexample:
  "total_money db0 = 17250 \<and>
   total_money (run db0 [(env0, Transfer 1 (request (1 / 8) ''1234'' (Some ''87654321'')))])
     = 1725001 / 100 \<and>
   map balance (users (run db0 [(env0, Transfer 1 (request (1 / 8) ''1234'' (Some ''87654321'')))]))
     = [499988 / 100, 750013 / 100, 3000] \<and>
   users_wf db_full \<and> non_negative db_full \<and> whole_cents 6000000000000 \<and>
   fst (transfer env0 db_full 1 (request 6000000000000 ''1234'' (Some ''87654321'')))
     = Inl InternalServerError \<and>
   map balance (users db_full) = [9000000000000, 5000000000000] \<and>
   map balance
     (users (snd (transfer env0 db_full 1 (request 6000000000000 ''1234'' (Some ''87654321'')))))
     = [3000000000000, 5000000000000] \<and>
   total_money (snd (transfer env0 db_full 1 (request 6000000000000 ''1234'' (Some ''87654321''))))
     = total_money db_full - 6000000000000 \<and>
   length (transactions
     (snd (transfer env0 db_full 1 (request 6000000000000 ''1234'' (Some ''87654321''))))) = 1"
  by code_simp

subsection \<open>C3: rejected requests write nothing\<close>

lemma transfer_insufficient:
  assumes "authenticate s i = Inr u" "transactionSchema r"
    "req_toAccountNumber r = Some acc" "acc \<noteq> []"
    "bcrypt_compare e (req_pin r) (pin u)"
    "getUserByAccountNumber s acc = Some v" "isActive v" "user_id v \<noteq> user_id u"
    "balance u < req_amount r"
  shows "transfer e s i r = (Inl InsufficientBalance, s)"
  using assms by (simp add: transfer_def)

lemma transfer_over_balance_rejected:
  assumes "\<forall>u. getUser s i = Some u \<longrightarrow> balance u < req_amount r"
  shows "\<exists>err. transfer e s i r = (Inl err, s) \<and> err \<noteq> InternalServerError"
proof -
  have no: False if "authenticate s i = Inr u" "req_amount r \<le> balance u" for u
  proof -
    from that(1) have "getUser s i = Some u" by (simp add: authenticate_InrD)
    with assms that(2) show False by auto
  qed
  show ?thesis
    by (cases rule: transfer_cases [where e = e and s = s and i = i and r = r])
       (use no in blast)+
qed

text \<open>A request that ends with status 500 had passed every check of its handler.\<close>

lemma deposit_500:
  assumes "deposit e s i r = (Inl InternalServerError, s')"
  shows "\<exists>u. authenticate s i = Inr u \<and> transactionSchema r \<and>
           bcrypt_compare e (req_pin r) (pin u)"
  by (cases rule: deposit_cases [where e = e and s = s and i = i and r = r])
     (use assms in auto)

lemma withdraw_500:
  assumes "withdraw e s i r = (Inl InternalServerError, s')"
  shows "\<exists>u. authenticate s i = Inr u \<and> transactionSchema r \<and>
           bcrypt_compare e (req_pin r) (pin u) \<and> req_amount r \<le> balance u"
  by (cases rule: withdraw_cases [where e = e and s = s and i = i and r = r])
     (use assms in auto)

lemma transfer_500:
  assumes "transfer e s i r = (Inl InternalServerError, s')"
  shows "\<exists>u v acc. authenticate s i = Inr u \<and> transactionSchema r \<and>
           req_toAccountNumber r = Some acc \<and> acc \<noteq> [] \<and>
           bcrypt_compare e (req_pin r) (pin u) \<and>
           getUserByAccountNumber s acc = Some v \<and> isActive v \<and> user_id v \<noteq> user_id u \<and>
           req_amount r \<le> balance u"
  by (cases rule: transfer_cases [where e = e and s = s and i = i and r = r])
     (use assms in auto)

text \<open>
  C3. A transfer whose amount exceeds the balance of the sender is rejected and leaves the
  whole database (all balances, wallet balances and the transaction table) as it was; when
  the request is otherwise in order (valid body, right PIN, an active destination other
  than the sender) the rejection is the insufficient balance error. Every rejection of a
  deposit, a withdrawal or a transfer by one of the checks of its handler leaves the
  database as it was, so no transaction row is written for a request whose precondition
  fails. The only other failure, status 500 from a refused storage call, is met only by
  requests that had passed every check.
\<close>

theorem rejected_requests_write_nothing:
  "(deposit e s i r = (Inl err, s') \<and> err \<noteq> InternalServerError \<longrightarrow>
      s' = s \<and> transactions s' = transactions s) \<and>
   (withdraw e s i r = (Inl err, s') \<and> err \<noteq> InternalServerError \<longrightarrow>
      s' = s \<and> transactions s' = transactions s) \<and>
   (transfer e s i r = (Inl err, s') \<and> err \<noteq> InternalServerError \<longrightarrow>
      s' = s \<and> transactions s' = transactions s) \<and>
   ((\<forall>u. getUser s i = Some u \<longrightarrow> balance u < req_amount r) \<longrightarrow>
      (\<exists>err. transfer e s i r = (Inl err, s) \<and> err \<noteq> InternalServerError)) \<and>
   (authenticate s i = Inr u \<and> transactionSchema r \<and>
    req_toAccountNumber r = Some acc \<and> acc \<noteq> [] \<and>
    bcrypt_compare e (req_pin r) (pin u) \<and>
    getUserByAccountNumber s acc = Some v \<and> isActive v \<and> user_id v \<noteq> user_id u \<and>
    balance u < req_amount r \<longrightarrow>
      transfer e s i r = (Inl InsufficientBalance, s)) \<and>
   (deposit e s i r = (Inl InternalServerError, s') \<longrightarrow>
      (\<exists>u. authenticate s i = Inr u \<and> transactionSchema r \<and>
         bcrypt_compare e (req_pin r) (pin u))) \<and>
   (withdraw e s i r = (Inl InternalServerError, s') \<longrightarrow>
      (\<exists>u. authenticate s i = Inr u \<and> transactionSchema r \<and>
         bcrypt_compare e (req_pin r) (pin u) \<and> req_amount r \<le> balance u)) \<and>
   (transfer e s i r = (Inl InternalServerError, s') \<longrightarrow>
      (\<exists>u v acc. authenticate s i = Inr u \<and> transactionSchema r \<and>
         req_toAccountNumber r = Some acc \<and> acc \<noteq> [] \<and>
         bcrypt_compare e (req_pin r) (pin u) \<and>
         getUserByAccountNumber s acc = Some v \<and> isActive v \<and> user_id v \<noteq> user_id u \<and>
         req_amount r \<le> balance u))"
proof (intro conjI impI)
  assume "deposit e s i r = (Inl err, s') \<and> err \<noteq> InternalServerError"
  then have "s' = s" using deposit_Inl by blast
  then show "s' = s" "transactions s' = transactions s" by simp_all
next
  assume "withdraw e s i r = (Inl err, s') \<and> err \<noteq> InternalServerError"
  then have "s' = s" using withdraw_Inl by blast
  then show "s' = s" "transactions s' = transactions s" by simp_all
next
  assume "transfer e s i r = (Inl err, s') \<and> err \<noteq> InternalServerError"
  then have "s' = s" using transfer_Inl by blast
  then show "s' = s" "transactions s' = transactions s" by simp_all
next
  assume "\<forall>u. getUser s i = Some u \<longrightarrow> balance u < req_amount r"
  then show "\<exists>err. transfer e s i r = (Inl err, s) \<and> err \<noteq> InternalServerError"
    by (rule transfer_over_balance_rejected)
next
  assume "authenticate s i = Inr u \<and> transactionSchema r \<and>
    req_toAccountNumber r = Some acc \<and> acc \<noteq> [] \<and>
    bcrypt_compare e (req_pin r) (pin u) \<and>
    getUserByAccountNumber s acc = Some v \<and> isActive v \<and> user_id v \<noteq> user_id u \<and>
    balance u < req_amount r"
  then show "transfer e s i r = (Inl InsufficientBalance, s)"
    by (intro transfer_insufficient [of s i u r acc e v]) simp_all
next
  assume "deposit e s i r = (Inl InternalServerError, s')"
  then show "\<exists>u. authenticate s i = Inr u \<and> transactionSchema r \<and>
         bcrypt_compare e (req_pin r) (pin u)" by (rule deposit_500)
next
  assume "withdraw e s i r = (Inl InternalServerError, s')"
  then show "\<exists>u. authenticate s i = Inr u \<and> transactionSchema r \<and>
         bcrypt_compare e (req_pin r) (pin u) \<and> req_amount r \<le> balance u"
    by (rule withdraw_500)
next
  assume "transfer e s i r = (Inl InternalServerError, s')"
  then show "\<exists>u v acc. authenticate s i = Inr u \<and> transactionSchema r \<and>
         req_toAccountNumber r = Some acc \<and> acc \<noteq> [] \<and>
         bcrypt_compare e (req_pin r) (pin u) \<and>
         getUserByAccountNumber s acc = Some v \<and> isActive v \<and> user_id v \<noteq> user_id u \<and>
         req_amount r \<le> balance u"
    by (rule transfer_500)
qed

text \<open>The third customer has a balance of 3000 and asks to transfer 4000 to the second.\<close>

theorem rejected_requests_write_nothing_witness:
  "authenticate db0 3 = Inr userC \<and> balance userC = 3000 \<and>
   transactionSchema (request 4000 ''9876'' (Some ''87654321'')) \<and>
   bcrypt_compare env0 ''9876'' (pin userC) \<and>
   getUserByAccountNumber db0 ''87654321'' = Some userB \<and> isActive userB \<and>
   user_id userB \<noteq> user_id userC \<and>
   transfer env0 db0 3 (request 4000 ''9876'' (Some ''87654321'')) = (Inl InsufficientBalance, db0) \<and>
   transactions db0 = []"
proof -
  have a: "authenticate db0 3 = Inr userC" by code_simp
  have b: "balance userC = 3000" by code_simp
  have c: "transactionSchema (request 4000 ''9876'' (Some ''87654321''))" by code_simp
  have d: "bcrypt_compare env0 ''9876'' (pin userC)" by code_simp
  have f: "getUserByAccountNumber db0 ''87654321'' = Some userB" by code_simp
  have g: "isActive userB" "user_id userB \<noteq> user_id userC" by code_simp+
  have h: "req_toAccountNumber (request 4000 ''9876'' (Some ''87654321'')) = Some ''87654321''"
    "req_pin (request 4000 ''9876'' (Some ''87654321'')) = ''9876''"
    "req_amount (request 4000 ''9876'' (Some ''87654321'')) = 4000"
    by (simp_all add: request_def)
  have "transfer env0 db0 3 (request 4000 ''9876'' (Some ''87654321'')) = (Inl InsufficientBalance, db0)"
    using rejected_requests_write_nothing [where e = env0 and s = db0 and i = 3
        and r = "request 4000 ''9876'' (Some ''87654321'')" and u = userC and v = userB
        and acc = "''87654321''"] a b c d f g h
    by simp
  moreover have "transactions db0 = []" by (simp add: db0_def)
  ultimately show ?thesis using a b c d f g by simp
qed

subsection \<open>C4: expired payment codes\<close>

lemma find_no_code:
  "\<forall>x \<in> set qs. qrCode x \<noteq> c \<Longrightarrow> find (\<lambda>x. qrCode x = c \<and> P x) qs = None"
  by (induction qs) auto

lemma find_qrCode:
  "distinct (map qrCode qs) \<Longrightarrow> q \<in> set qs \<Longrightarrow>
   find (\<lambda>x. qrCode x = qrCode q \<and> P x) qs = (if P q then Some q else None)"
proof (induction qs)
  case Nil
  then show ?case by simp
next
  case (Cons x xs)
  show ?case
  proof (cases "x = q")
    case True
    then have "\<forall>y \<in> set xs. qrCode y \<noteq> qrCode q" using Cons.prems by (auto simp: image_iff)
    then have "find (\<lambda>x. qrCode x = qrCode q \<and> P x) xs = None" by (rule find_no_code)
    then show ?thesis using True by simp
  next
    case False
    then have "q \<in> set xs" "qrCode x \<noteq> qrCode q" using Cons.prems by (auto simp: image_iff)
    then show ?thesis using Cons by simp
  qed
qed

lemma getQrPaymentByCode_member:
  assumes "qr_wf s" "q \<in> set (qrPayments s)"
  shows "getQrPaymentByCode e s (qrCode q) =
     (if isUsed q = False \<and> now e \<le> expiresAt q then Some q else None)"
proof -
  have "distinct (map qrCode (qrPayments s))" using assms(1) by (simp add: qr_wf_def)
  from find_qrCode [OF this assms(2), of "\<lambda>x. isUsed x = False \<and> now e \<le> expiresAt x"]
  show ?thesis by (simp add: getQrPaymentByCode_def)
qed


lemma qr_scan_not_found:
  assumes "authenticate s i = Inr u" "c \<noteq> []" "getQrPaymentByCode e s c = None"
  shows "qr_scan e s i (Some c) a = (Inl InvalidOrExpiredQrCode, s)"
  using assms by (simp add: qr_scan_def qr_scan_reads_def)

lemma qr_scan_reads_found:
  assumes "authenticate s i = Inr u" "c \<noteq> []" "getQrPaymentByCode e s c = Some q"
    "0 < paymentAmount a q" "paymentAmount a q \<le> walletBalance u"
  shows "qr_scan_reads e s i (Some c) a = Inr (u, q)"
  using assms by (simp add: qr_scan_reads_def)

lemma qr_scan_found_answer:
  assumes "authenticate s i = Inr u" "c \<noteq> []" "getQrPaymentByCode e s c = Some q"
  shows "fst (qr_scan e s i (Some c) a) \<noteq> Inl InvalidOrExpiredQrCode"
  using assms
  by (auto simp: qr_scan_def qr_scan_reads_def qr_scan_writes_def Let_def
      split: option.splits)

text \<open>The writes of a scan are accepted when the rows of the users table respect their
  columns, the reference number is new and the merchant name fits the account number
  column of the transaction.\<close>

lemma qr_scan_accepts:
  assumes a: "authenticate s i = Inr u" and c: "c \<noteq> []"
    and g: "getQrPaymentByCode e s c = Some q"
    and pos: "0 < paymentAmount a q" and le: "paymentAmount a q \<le> walletBalance u"
    and fit: "users_fit s" and fresh: "fresh_reference e s"
    and m: "length (or_default (merchantName q) ''QR Merchant'') \<le> 20"
  shows "\<exists>s'. qr_scan e s i (Some c) a =
     (Inr (PaymentSuccessful (paymentAmount a q) (merchantName q)
            (toFixed2 (walletBalance u - paymentAmount a q))), s')"
proof -
  from a have u: "u \<in> set (users s)" by (simp add: authenticate_InrD)
  then have fu: "length (accountNumber u) \<le> 20" "fits_15_2 (walletBalance u)"
    using fit by (auto simp: users_fit_def list_all_iff)
  have fa: "fits_15_2 (paymentAmount a q)"
    using fits_between [OF fu(2), of "paymentAmount a q"] pos le by simp
  have fw: "fits_15_2 (toFixed2 (walletBalance u - paymentAmount a q))"
    using fits_between [OF fu(2), of "walletBalance u - paymentAmount a q"] pos le by simp
  have "references (Some (user_id u)) (map user_id (users s))"
    using u by (simp add: references_def)
  moreover have "references None (map user_id (users s))" by (simp add: references_def)
  moreover have "varchar 20 (Some (accountNumber u))"
    "varchar 20 (Some (or_default (merchantName q) ''QR Merchant''))"
    using fu(1) m by (simp_all add: varchar_def)
  ultimately obtain s1
    where row: "createTransaction e s (payment_row e u q (paymentAmount a q)) = Some s1"
    using fa fresh by (simp add: createTransaction_def payment_row_def fresh_reference_def)
  obtain s2 where upd: "updateUserWalletBalance s1 (user_id u)
      (toFixed2 (walletBalance u - paymentAmount a q)) = Some s2"
    using updateUserWalletBalance_fits [OF fw] by blast
  have "qr_scan_reads e s i (Some c) a = Inr (u, q)"
    using a c g pos le by (rule qr_scan_reads_found)
  then show ?thesis using row upd by (simp add: qr_scan_def qr_scan_writes_def)
qed

lemma qrPayments_markQr:
  "qrPayments (markQrPaymentAsUsed s k) =
     map (\<lambda>q. if qr_id q = k then q\<lparr>isUsed := True\<rparr> else q) (qrPayments s)"
  by (simp add: markQrPaymentAsUsed_def)



text \<open>
  C4 (as amended). For a payment code row of a table with unique codes and a signed-in
  payer: a scan at a time strictly after \<open>expiresAt\<close> is rejected with the error the
  server also gives for a missing or used code (``Invalid or expired QR code''), and the
  database stays as it was, so no wallet is debited and the row stays unused. At any time
  up to and including \<open>expiresAt\<close> an unused code is still found and the scan is not
  answered with that error; it succeeds when the resolved amount is positive and at most
  the wallet balance and the database accepts its writes.
\<close>

theorem expired_code_rejected:
  assumes "qr_wf s" "q \<in> set (qrPayments s)" "authenticate s i = Inr u" "qrCode q \<noteq> []"
  shows "(expiresAt q < now e \<longrightarrow>
            qr_scan e s i (Some (qrCode q)) a = (Inl InvalidOrExpiredQrCode, s)) \<and>
         (\<not> isUsed q \<and> now e \<le> expiresAt q \<longrightarrow>
            getQrPaymentByCode e s (qrCode q) = Some q) \<and>
         (\<not> isUsed q \<and> now e \<le> expiresAt q \<longrightarrow>
            fst (qr_scan e s i (Some (qrCode q)) a) \<noteq> Inl InvalidOrExpiredQrCode) \<and>
         (\<not> isUsed q \<and> now e \<le> expiresAt q \<and>
          0 < paymentAmount a q \<and> paymentAmount a q \<le> walletBalance u \<and>
          users_fit s \<and> fresh_reference e s \<and>
          length (or_default (merchantName q) ''QR Merchant'') \<le> 20 \<longrightarrow>
            (\<exists>x s'. qr_scan e s i (Some (qrCode q)) a = (Inr x, s')))"
proof (intro conjI impI)
  assume "expiresAt q < now e"
  then have "getQrPaymentByCode e s (qrCode q) = None"
    using getQrPaymentByCode_member [OF assms(1,2), of e] by simp
  with assms(3,4) show "qr_scan e s i (Some (qrCode q)) a = (Inl InvalidOrExpiredQrCode, s)"
    by (rule qr_scan_not_found)
next
  assume "\<not> isUsed q \<and> now e \<le> expiresAt q"
  then show "getQrPaymentByCode e s (qrCode q) = Some q"
    using getQrPaymentByCode_member [OF assms(1,2), of e] by simp
next
  assume "\<not> isUsed q \<and> now e \<le> expiresAt q"
  then have "getQrPaymentByCode e s (qrCode q) = Some q"
    using getQrPaymentByCode_member [OF assms(1,2), of e] by simp
  with assms(3,4) show "fst (qr_scan e s i (Some (qrCode q)) a) \<noteq> Inl InvalidOrExpiredQrCode"
    by (rule qr_scan_found_answer)
next
  assume h: "\<not> isUsed q \<and> now e \<le> expiresAt q \<and>
          0 < paymentAmount a q \<and> paymentAmount a q \<le> walletBalance u \<and>
          users_fit s \<and> fresh_reference e s \<and>
          length (or_default (merchantName q) ''QR Merchant'') \<le> 20"
  then have "getQrPaymentByCode e s (qrCode q) = Some q"
    using getQrPaymentByCode_member [OF assms(1,2), of e] by simp
  with assms(3,4) h show "\<exists>x s'. qr_scan e s i (Some (qrCode q)) a = (Inr x, s')"
    using qr_scan_accepts [of s i u "qrCode q" e q a] by blast
qed

text \<open>The code of the example expires at 2000000: one millisecond later the scan is
  rejected and nothing changes.\<close>

theorem expired_code_rejected_witness:
  "qr_wf db0 \<and> codeM \<in> set (qrPayments db0) \<and> authenticate db0 3 = Inr userC \<and>
   qrCode codeM \<noteq> [] \<and> expiresAt codeM < now (env_at 2000001 ''TXN2000001111'') \<and>
   qr_scan (env_at 2000001 ''TXN2000001111'') db0 3 (Some ''c0de'') None
     = (Inl InvalidOrExpiredQrCode, db0)"
proof -
  have a: "qr_wf db0" by code_simp
  have b: "codeM \<in> set (qrPayments db0)" by (simp add: db0_def)
  have c: "authenticate db0 3 = Inr userC" by code_simp
  have d: "qrCode codeM \<noteq> []" by (simp add: codeM_def)
  have f: "expiresAt codeM < now (env_at 2000001 ''TXN2000001111'')"
    by (simp add: codeM_def env_at_def)
  have g: "qrCode codeM = ''c0de''" by (simp add: codeM_def)
  from expired_code_rejected [OF a b c d, of "env_at 2000001 ''TXN2000001111''" None] f g
  have "qr_scan (env_at 2000001 ''TXN2000001111'') db0 3 (Some ''c0de'') None
     = (Inl InvalidOrExpiredQrCode, db0)" by simp
  then show ?thesis using a b c d f by simp
qed

text \<open>A scan at exactly \<open>expiresAt\<close> = 2000000 of the unused code succeeds: the wallet of
  the payer goes from 1000 to 500 and the code becomes used.\<close>

theorem expired_code_rejected_counterexample:
  "isUsed codeM = False \<and> now (env_at 2000000 ''TXN2000000111'') \<ge> expiresAt codeM \<and>
   fst (qr_scan (env_at 2000000 ''TXN2000000111'') db0 3 (Some ''c0de'') None)
     = Inr (PaymentSuccessful 500 (Some ''M'') 500) \<and>
   map walletBalance
     (users (snd (qr_scan (env_at 2000000 ''TXN2000000111'') db0 3 (Some ''c0de'') None)))
     = [0, 750, 500] \<and>
   map isUsed
     (qrPayments (snd (qr_scan (env_at 2000000 ''TXN2000000111'') db0 3 (Some ''c0de'') None)))
     = [True]"
  by code_simp

subsection \<open>C5: a used payment code\<close>






subsection \<open>C6: the handlers and the fraud alert table\<close>

lemma fraudAlerts_deposit: "fraudAlerts (snd (deposit e s i r)) = fraudAlerts s"
  by (cases rule: deposit_cases [where e = e and s = s and i = i and r = r])
     (simp_all add: createTransaction_SomeD updateUserBalance_SomeD)

lemma fraudAlerts_withdraw: "fraudAlerts (snd (withdraw e s i r)) = fraudAlerts s"
  by (cases rule: withdraw_cases [where e = e and s = s and i = i and r = r])
     (simp_all add: createTransaction_SomeD updateUserBalance_SomeD
        updateUserWalletBalance_SomeD)

lemma fraudAlerts_transfer: "fraudAlerts (snd (transfer e s i r)) = fraudAlerts s"
  by (cases rule: transfer_cases [where e = e and s = s and i = i and r = r])
     (simp_all add: createTransaction_SomeD updateUserBalance_SomeD)

lemma fraudAlerts_qr_scan: "fraudAlerts (snd (qr_scan e s i c a)) = fraudAlerts s"
  by (cases rule: qr_scan_cases [where e = e and s = s and i = i and c = c and a = a])
     (simp_all add: createTransaction_SomeD updateUserWalletBalance_SomeD)

lemma fraudAlerts_step: "fraudAlerts (snd (step e s x)) = fraudAlerts s"
  by (cases x)
     (simp_all add: fraudAlerts_deposit fraudAlerts_withdraw fraudAlerts_transfer
        fraudAlerts_qr_scan)

lemma fraudAlerts_run: "fraudAlerts (run s xs) = fraudAlerts s"
  by (induction xs arbitrary: s) (auto simp: fraudAlerts_step)

text \<open>
  C6. The claim asks that a completed operation whose transaction triggers a fraud pattern
  leaves a pending fraud alert. The routes import \<^verbatim>\<open>FraudDetectionService\<close> and the storage
  has \<^verbatim>\<open>createFraudAlert\<close>, but no handler calls either. Here the first customer deposits
  20000: the deposit succeeds, the recorded transaction triggers \<^verbatim>\<open>unusual_amount\<close> and
  \<^verbatim>\<open>round_amount\<close> with a combined score of 72.5, and the fraud alert table is still
  empty, although \<^verbatim>\<open>createFraudAlert\<close> would accept that alert and keep it as pending.
\<close>

theorem deposit_stores_no_alert:
  "fst (deposit env0 db0 1 (request 20000 ''1234'' None)) = Inr (DepositSuccessful 25000 20000) \<and>
   map tx_id (transactions (snd (deposit env0 db0 1 (request 20000 ''1234'' None)))) = [1] \<and>
   map pattern_type
     (analyzeTransaction env0 (snd (deposit env0 db0 1 (request 20000 ''1234'' None)))
        (last (transactions (snd (deposit env0 db0 1 (request 20000 ''1234'' None))))) userA)
     = [''unusual_amount'', ''round_amount''] \<and>
   calculateRiskScore
     (analyzeTransaction env0 (snd (deposit env0 db0 1 (request 20000 ''1234'' None)))
        (last (transactions (snd (deposit env0 db0 1 (request 20000 ''1234'' None))))) userA)
     = 145 / 2 \<and>
   fraudAlerts (snd (deposit env0 db0 1 (request 20000 ''1234'' None))) = [] \<and>
   map_option (\<lambda>s. map alert_status (fraudAlerts s))
     (createFraudAlert (snd (deposit env0 db0 1 (request 20000 ''1234'' None))) 1 (Some 1)
        ''unusual_amount'' (145 / 2)
        ''Multiple fraud indicators detected: unusual_amount, round_amount'' None)
     = Some [pending]"
  by code_simp

subsection \<open>C8: the combined risk score\<close>

lemma foldl_riskScore:
  "foldl (\<lambda>sum pattern. sum + riskScore pattern) a ps = a + sum_list (map riskScore ps)"
  by (induction ps arbitrary: a) simp_all

lemma calculateRiskScore_spec:
  "patterns \<noteq> [] \<Longrightarrow> calculateRiskScore patterns = spec_score (map riskScore patterns)"
  by (simp add: calculateRiskScore_def spec_score_def foldl_riskScore Let_def min.commute
      mult.commute)

lemma analyzeTransaction_weights:
  "p \<in> set (analyzeTransaction e s t u) \<Longrightarrow> riskScore p \<in> {75, 60, 80, 40, 30}"
  unfolding analyzeTransaction_def by (auto split: if_splits)

text \<open>
  C8. For a non-empty list of triggered patterns the risk score is the minimum of 100 and
  the average of their weights plus the minimum of 30 and ten times their number; for no
  pattern the score is 0. The patterns that \<^verbatim>\<open>analyzeTransaction\<close> reports carry the weights
  75, 60, 80, 40 and 30 only. No handler stores an alert, so none is stored when no
  pattern triggers.
\<close>

theorem risk_score_combination:
  "(patterns \<noteq> [] \<longrightarrow>
      calculateRiskScore patterns =
        min 100 (sum_list (map riskScore patterns) / of_nat (length patterns)
                 + min 30 (10 * of_nat (length patterns)))) \<and>
   (patterns \<noteq> [] \<longrightarrow> calculateRiskScore patterns = spec_score (map riskScore patterns)) \<and>
   calculateRiskScore [] = 0 \<and>
   (\<forall>p \<in> set (analyzeTransaction e s t u). riskScore p \<in> {75, 60, 80, 40, 30}) \<and>
   (analyzeTransaction e s t u = [] \<longrightarrow> fraudAlerts (snd (step e s x)) = fraudAlerts s)"
proof (intro conjI impI ballI)
  assume "patterns \<noteq> []"
  then show "calculateRiskScore patterns =
        min 100 (sum_list (map riskScore patterns) / of_nat (length patterns)
                 + min 30 (10 * of_nat (length patterns)))"
    by (simp add: calculateRiskScore_spec spec_score_def)
next
  assume "patterns \<noteq> []"
  then show "calculateRiskScore patterns = spec_score (map riskScore patterns)"
    by (rule calculateRiskScore_spec)
next
  show "calculateRiskScore [] = 0" by (simp add: calculateRiskScore_def)
next
  fix p assume "p \<in> set (analyzeTransaction e s t u)"
  then show "riskScore p \<in> {75, 60, 80, 40, 30}" by (rule analyzeTransaction_weights)
next
  show "fraudAlerts (snd (step e s x)) = fraudAlerts s" by (rule fraudAlerts_step)
qed

text \<open>After the three transfers of 9999999 the scoring of the last one reports
  \<^verbatim>\<open>unusual_amount\<close> and \<^verbatim>\<open>high_velocity\<close>, and the score is 97.5. A withdrawal of 100 at
  noon triggers nothing, and the alert table stays empty.\<close>

theorem risk_score_combination_witness:
  "getUser (run dbD opsD) 4 = Some (userD\<lparr>balance := 60000003\<rparr>) \<and>
   analyzeTransaction (env_at 50120001 []) (run dbD opsD) (last (transactions (run dbD opsD)))
       (userD\<lparr>balance := 60000003\<rparr>)
     = [\<lparr>pattern_type = ''unusual_amount'', riskScore = 75\<rparr>,
        \<lparr>pattern_type = ''high_velocity'', riskScore = 80\<rparr>] \<and>
   calculateRiskScore [\<lparr>pattern_type = ''unusual_amount'', riskScore = 75\<rparr>,
        \<lparr>pattern_type = ''high_velocity'', riskScore = 80\<rparr>] = 195 / 2 \<and>
   analyzeTransaction env0 (snd (withdraw env0 db0 1 (request 100 ''1234'' None)))
       (last (transactions (snd (withdraw env0 db0 1 (request 100 ''1234'' None))))) userA = [] \<and>
   fraudAlerts (snd (step env0 (snd (withdraw env0 db0 1 (request 100 ''1234'' None)))
       (Deposit 1 (request 5 ''1234'' None)))) = []"
proof -
  let ?ps = "[\<lparr>pattern_type = ''unusual_amount'', riskScore = 75\<rparr>,
        \<lparr>pattern_type = ''high_velocity'', riskScore = 80\<rparr>]"
  let ?s1 = "snd (withdraw env0 db0 1 (request 100 ''1234'' None))"
  have ne: "?ps \<noteq> []" by simp
  have g: "getUser (run dbD opsD) 4 = Some (userD\<lparr>balance := 60000003\<rparr>)" by code_simp
  have an: "analyzeTransaction (env_at 50120001 []) (run dbD opsD)
       (last (transactions (run dbD opsD))) (userD\<lparr>balance := 60000003\<rparr>) = ?ps"
    by code_simp
  have none: "analyzeTransaction env0 ?s1 (last (transactions ?s1)) userA = []" by code_simp
  have fa: "fraudAlerts ?s1 = []" by code_simp
  from risk_score_combination [where patterns = ?ps and e = env0 and s = ?s1
      and t = "last (transactions ?s1)" and u = userA
      and x = "Deposit 1 (request 5 ''1234'' None)"] ne none
  have score: "calculateRiskScore ?ps
      = min 100 (sum_list (map riskScore ?ps) / of_nat (length ?ps)
                 + min 30 (10 * of_nat (length ?ps)))"
    and keep: "fraudAlerts (snd (step env0 ?s1 (Deposit 1 (request 5 ''1234'' None))))
      = fraudAlerts ?s1"
    by blast+
  from score have "calculateRiskScore ?ps = 195 / 2" by simp
  then show ?thesis using g an none keep fa by simp
qed

subsection \<open>C7: withdrawal to the wallet\<close>

lemma fits_whole_cents_iff:
  "whole_cents x \<Longrightarrow> fits_15_2 x \<longleftrightarrow> - (10 ^ 13) < x \<and> x < 10 ^ 13"
  by (simp add: fits_15_2_def decimal_whole_cents abs_less_iff) linarith

lemma users_fitD:
  "users_fit s \<Longrightarrow> u \<in> set (users s) \<Longrightarrow>
     length (accountNumber u) \<le> 20 \<and> fits_15_2 (balance u) \<and> fits_15_2 (walletBalance u)"
  by (auto simp: users_fit_def list_all_iff)

text \<open>
  C7 (as amended). For a signed-in user with a two-decimal balance \<open>b\<close> and wallet balance
  \<open>w\<close> in a users table that respects its columns, a withdrawal to the wallet with a
  valid body, the right PIN and a new reference number, for a positive amount of at most
  two decimals that is at most \<open>b\<close> and keeps \<open>w + amount\<close> below \<open>10^13\<close>, succeeds: the
  balance becomes \<open>b - amount\<close>, the wallet balance \<open>w + amount\<close>, no other user changes,
  and exactly one transaction row is appended, of type withdrawal-to-wallet, with that
  amount and status completed.
\<close>

theorem withdraw_to_wallet_effect:
  assumes "users_wf s" "users_fit s" "authenticate s i = Inr u" "transactionSchema r"
    "bcrypt_compare e (req_pin r) (pin u)" "fresh_reference e s"
    "whole_cents (req_amount r)" "req_amount r \<le> balance u"
    "walletBalance u + req_amount r < 10 ^ 13"
  shows "\<exists>s'. withdraw e s i r =
      (Inr (WithdrawalSuccessful (balance u - req_amount r) (walletBalance u + req_amount r)
             (req_amount r)), s') \<and>
    getUser s' i = Some (u\<lparr>balance := balance u - req_amount r,
                           walletBalance := walletBalance u + req_amount r\<rparr>) \<and>
    (\<forall>j. j \<noteq> i \<longrightarrow> getUser s' j = getUser s j) \<and>
    transactions s' = transactions s @
      [\<lparr>fromUserId = Some i, toUserId = None,
        fromAccountNumber = Some (accountNumber u), toAccountNumber = None,
        amount = req_amount r, transactionType = withdrawal_to_wallet,
        description = Some ''Withdrawal to wallet'', status = completed,
        referenceNumber = generateReferenceNumber e,
        tx_id = next_tx_id s, createdAt = now e\<rparr>]"
proof -
  from assms(3) have u: "getUser s i = Some u" "u \<in> set (users s)" "user_id u = i"
    by (simp_all add: authenticate_InrD)
  have pos: "0 < req_amount r" using assms(4) by (simp add: transactionSchema_def)
  have cu: "whole_cents (balance u)" "whole_cents (walletBalance u)"
    using users_wfD [OF assms(1) u(2)] by simp_all
  have fu: "length (accountNumber u) \<le> 20" "fits_15_2 (balance u)" "fits_15_2 (walletBalance u)"
    using users_fitD [OF assms(2) u(2)] by simp_all
  have wb: "whole_cents (balance u - req_amount r)" using cu assms(7) by (simp add: whole_cents_diff)
  have ww: "whole_cents (walletBalance u + req_amount r)"
    using cu assms(7) by (simp add: whole_cents_add)
  have fb: "toFixed2 (balance u - req_amount r) = balance u - req_amount r"
    using wb by (rule toFixed2_whole_cents)
  have fw: "toFixed2 (walletBalance u + req_amount r) = walletBalance u + req_amount r"
    using ww by (rule toFixed2_whole_cents)
  have da: "decimal_15_2 (req_amount r) = req_amount r"
    using assms(7) by (rule decimal_whole_cents)
  have db: "decimal_15_2 (balance u - req_amount r) = balance u - req_amount r"
    using wb by (rule decimal_whole_cents)
  have dw: "decimal_15_2 (walletBalance u + req_amount r) = walletBalance u + req_amount r"
    using ww by (rule decimal_whole_cents)
  have fits_a: "fits_15_2 (req_amount r)"
    using fits_between [OF fu(2), of "req_amount r"] pos assms(8) by simp
  have fits_b: "fits_15_2 (balance u - req_amount r)"
    using fits_between [OF fu(2), of "balance u - req_amount r"] pos assms(8) by simp
  have "- (10 ^ 13) < walletBalance u" using fu(3) cu(2) by (simp add: fits_whole_cents_iff)
  then have fits_w: "fits_15_2 (walletBalance u + req_amount r)"
    using ww assms(9) pos by (simp add: fits_whole_cents_iff)
  have "references (Some (user_id u)) (map user_id (users s))"
    using u(2) by (simp add: references_def)
  moreover have "references None (map user_id (users s))" by (simp add: references_def)
  moreover have "varchar 20 (Some (accountNumber u))" "varchar 20 None"
    using fu(1) by (simp_all add: varchar_def)
  ultimately obtain s1
    where row: "createTransaction e s (withdraw_row e u (req_amount r)) = Some s1"
    using fits_a assms(6)
    by (simp add: createTransaction_def withdraw_row_def fresh_reference_def)
  obtain s2 where deb: "updateUserBalance s1 i (balance u - req_amount r) = Some s2"
    using updateUserBalance_fits [OF fits_b] by blast
  obtain s3 where cre: "updateUserWalletBalance s2 i (walletBalance u + req_amount r) = Some s3"
    using updateUserWalletBalance_fits [OF fits_w] by blast
  have nb: "\<not> balance u < req_amount r" using assms(8) by simp
  have w: "withdraw e s i r =
      (Inr (WithdrawalSuccessful (balance u - req_amount r) (walletBalance u + req_amount r)
             (req_amount r)), s3)"
    using assms(3,4,5) nb row deb cre u(3) fb fw by (simp add: withdraw_def)
  have g1: "getUser s1 j = getUser s j" for j using row by (rule getUser_createTransaction)
  have g3: "getUser s3 j =
      map_option (\<lambda>w. if user_id w = i
          then w\<lparr>walletBalance := walletBalance u + req_amount r\<rparr> else w)
        (map_option (\<lambda>w. if user_id w = i then w\<lparr>balance := balance u - req_amount r\<rparr> else w)
          (getUser s j))" for j
    using getUser_updateUserWalletBalance [OF cre, of j] getUser_updateUserBalance [OF deb, of j]
    unfolding db dw by (simp add: g1)
  have g: "getUser s3 i = Some (u\<lparr>balance := balance u - req_amount r,
                           walletBalance := walletBalance u + req_amount r\<rparr>)"
    using g3 [of i] u by simp
  have o: "getUser s3 j = getUser s j" if "j \<noteq> i" for j
  proof (cases "getUser s j")
    case None
    then show ?thesis using g3 [of j] by simp
  next
    case (Some w)
    then have "user_id w \<noteq> i" using that by (auto dest: getUser_SomeD)
    then show ?thesis using Some g3 [of j] by simp
  qed
  have t: "transactions s3 = transactions s @
      [\<lparr>fromUserId = Some i, toUserId = None,
        fromAccountNumber = Some (accountNumber u), toAccountNumber = None,
        amount = req_amount r, transactionType = withdrawal_to_wallet,
        description = Some ''Withdrawal to wallet'', status = completed,
        referenceNumber = generateReferenceNumber e,
        tx_id = next_tx_id s, createdAt = now e\<rparr>]"
    using createTransaction_SomeD(4) [OF row] updateUserBalance_SomeD(3) [OF deb]
      updateUserWalletBalance_SomeD(3) [OF cre] da u(3)
    by (simp add: withdraw_row_def)
  show ?thesis using w g o t by blast
qed

text \<open>The first customer has 5000 and an empty wallet and moves 2000 to the wallet.\<close>

theorem withdraw_to_wallet_effect_witness:
  "users_wf db0 \<and> users_fit db0 \<and> authenticate db0 1 = Inr userA \<and> balance userA = 5000 \<and>
   walletBalance userA = 0 \<and> fresh_reference env0 db0 \<and>
   transactionSchema (request 2000 ''1234'' None) \<and> bcrypt_compare env0 ''1234'' (pin userA) \<and>
   whole_cents 2000 \<and>
   (\<exists>s'. withdraw env0 db0 1 (request 2000 ''1234'' None)
        = (Inr (WithdrawalSuccessful 3000 2000 2000), s') \<and>
      getUser s' 1 = Some (userA\<lparr>balance := 3000, walletBalance := 2000\<rparr>) \<and>
      map transactionType (transactions s') = [withdrawal_to_wallet] \<and>
      map amount (transactions s') = [2000] \<and>
      map status (transactions s') = [completed])"
proof -
  have a: "users_wf db0" by code_simp
  have a': "users_fit db0" by code_simp
  have b: "authenticate db0 1 = Inr userA" by code_simp
  have c: "transactionSchema (request 2000 ''1234'' None)" by code_simp
  have d: "bcrypt_compare env0 ''1234'' (pin userA)" by code_simp
  have d': "fresh_reference env0 db0" by code_simp
  have f: "whole_cents 2000" by code_simp
  have g: "balance userA = 5000" "walletBalance userA = 0" by (simp_all add: userA_def)
  have r: "req_amount (request 2000 ''1234'' None) = 2000"
    "req_pin (request 2000 ''1234'' None) = ''1234''" by (simp_all add: request_def)
  have t: "transactions db0 = []" by (simp add: db0_def)
  from withdraw_to_wallet_effect [of db0 1 userA "request 2000 ''1234'' None" env0]
    a a' b c d d' f g r
  obtain s' where "withdraw env0 db0 1 (request 2000 ''1234'' None)
        = (Inr (WithdrawalSuccessful 3000 2000 2000), s')"
    "getUser s' 1 = Some (userA\<lparr>balance := 3000, walletBalance := 2000\<rparr>)"
    "transactions s' = transactions db0 @
      [\<lparr>fromUserId = Some 1, toUserId = None,
        fromAccountNumber = Some (accountNumber userA), toAccountNumber = None,
        amount = 2000, transactionType = withdrawal_to_wallet,
        description = Some ''Withdrawal to wallet'', status = completed,
        referenceNumber = generateReferenceNumber env0,
        tx_id = next_tx_id db0, createdAt = now env0\<rparr>]"
    by auto
  then show ?thesis using a a' b c d d' f g t by auto
qed

text \<open>A withdrawal of 0.125 from 5000 succeeds and leaves a balance of 4999.88 and a
  wallet balance of 0.13, not 4999.875 and 0.125. A withdrawal of 1000000000000 by the
  second customer of \<open>db_full\<close>, from a balance of 5000000000000 to a wallet of
  9500000000000, inserts its row and lowers the balance; the wallet would reach \<open>10^13\<close>,
  its update is refused, the request ends with status 500 and the wallet is as it was.\<close>

theorem withdraw_to_wallet_effect_counterexample:
  "authenticate db0 1 = Inr userA \<and> balance userA = 5000 \<and> walletBalance userA = 0 \<and>
   withdraw env0 db0 1 (request (1 / 8) ''1234'' None)
     = (Inr (WithdrawalSuccessful (124997 / 25) (13 / 100) (1 / 8)),
        snd (withdraw env0 db0 1 (request (1 / 8) ''1234'' None))) \<and>
   getUser (snd (withdraw env0 db0 1 (request (1 / 8) ''1234'' None))) 1
     = Some (userA\<lparr>balance := 124997 / 25, walletBalance := 13 / 100\<rparr>) \<and>
   (124997 / 25 :: rat) \<noteq> 5000 - 1 / 8 \<and> (13 / 100 :: rat) \<noteq> 0 + 1 / 8 \<and>
   users_wf db_full \<and> map balance (users db_full) = [9000000000000, 5000000000000] \<and>
   map walletBalance (users db_full) = [0, 9500000000000] \<and>
   fst (withdraw env0 db_full 2 (request 1000000000000 ''5678'' None))
     = Inl InternalServerError \<and>
   map balance (users (snd (withdraw env0 db_full 2 (request 1000000000000 ''5678'' None))))
     = [9000000000000, 4000000000000] \<and>
   map walletBalance (users (snd (withdraw env0 db_full 2 (request 1000000000000 ''5678'' None))))
     = [0, 9500000000000] \<and>
   map transactionType
     (transactions (snd (withdraw env0 db_full 2 (request 1000000000000 ''5678'' None))))
     = [withdrawal_to_wallet]"
proof -
  have "fst (withdraw env0 db0 1 (request (1 / 8) ''1234'' None))
      = Inr (WithdrawalSuccessful (124997 / 25) (13 / 100) (1 / 8))" by code_simp
  then have "withdraw env0 db0 1 (request (1 / 8) ''1234'' None)
     = (Inr (WithdrawalSuccessful (124997 / 25) (13 / 100) (1 / 8)),
        snd (withdraw env0 db0 1 (request (1 / 8) ''1234'' None)))"
    by (simp add: prod_eq_iff)
  moreover have "authenticate db0 1 = Inr userA" by code_simp
  moreover have "balance userA = 5000" "walletBalance userA = 0" by (simp_all add: userA_def)
  moreover have "getUser (snd (withdraw env0 db0 1 (request (1 / 8) ''1234'' None))) 1
     = Some (userA\<lparr>balance := 124997 / 25, walletBalance := 13 / 100\<rparr>)" by code_simp
  moreover have "users_wf db_full" by code_simp
  moreover have "map balance (users db_full) = [9000000000000, 5000000000000]" by code_simp
  moreover have "map walletBalance (users db_full) = [0, 9500000000000]" by code_simp
  moreover have "fst (withdraw env0 db_full 2 (request 1000000000000 ''5678'' None))
     = Inl InternalServerError" by code_simp
  moreover have
    "map balance (users (snd (withdraw env0 db_full 2 (request 1000000000000 ''5678'' None))))
     = [9000000000000, 4000000000000]" by code_simp
  moreover have
    "map walletBalance (users (snd (withdraw env0 db_full 2 (request 1000000000000 ''5678'' None))))
     = [0, 9500000000000]" by code_simp
  moreover have "map transactionType
     (transactions (snd (withdraw env0 db_full 2 (request 1000000000000 ''5678'' None))))
     = [withdrawal_to_wallet]" by code_simp
  ultimately show ?thesis by simp
qed

subsection \<open>C9: the amount of a QR payment\<close>

lemma qr_scan_invalid_amount:
  assumes "authenticate s i = Inr u" "c \<noteq> []" "getQrPaymentByCode e s c = Some q"
    "paymentAmount a q \<le> 0"
  shows "qr_scan e s i (Some c) a = (Inl InvalidPaymentAmount, s)"
  using assms by (simp add: qr_scan_def qr_scan_reads_def)

lemma qr_scan_invalid_amountD:
  assumes "authenticate s i = Inr u" "getQrPaymentByCode e s c = Some q"
    "qr_scan e s i (Some c) a = (Inl InvalidPaymentAmount, s')"
  shows "paymentAmount a q \<le> 0"
  using assms
  by (auto simp: qr_scan_def qr_scan_reads_def qr_scan_writes_def Let_def
      split: if_splits option.splits)

lemma qr_scan_positive_amount:
  assumes "authenticate s i = Inr u" "c \<noteq> []" "getQrPaymentByCode e s c = Some q"
    "0 < paymentAmount a q" "paymentAmount a q \<le> walletBalance u"
  shows "fst (qr_scan e s i (Some c) a) =
           Inr (PaymentSuccessful (paymentAmount a q) (merchantName q)
                 (toFixed2 (walletBalance u - paymentAmount a q))) \<or>
         fst (qr_scan e s i (Some c) a) = Inl InternalServerError"
proof -
  have "qr_scan_reads e s i (Some c) a = Inr (u, q)" using assms by (rule qr_scan_reads_found)
  then show ?thesis
    by (simp add: qr_scan_def qr_scan_writes_def Let_def split: option.splits)
qed

text \<open>
  C9 (as amended). In a QR scan the amount of the request is used when it is a number
  other than 0; a request amount of 0 counts as absent, and then the amount of the code
  is used, or 0 when the code has none. For a signed-in payer and a code that is found,
  the scan is rejected with the invalid payment amount error exactly when the resolved
  amount is at most 0, and then the database stays as it was. Every positive resolved
  amount, whole or fractional, that the wallet balance covers passes the checks: the scan
  either succeeds or ends with status 500 in one of its writes, and it succeeds when the
  users table respects its columns, the reference number is new and the merchant name
  has at most 20 characters.
\<close>

theorem scan_amount_resolution:
  "(v \<noteq> 0 \<longrightarrow> paymentAmount (Some v) q = v) \<and>
   paymentAmount (Some 0) q = paymentAmount None q \<and>
   paymentAmount None q = (case qr_amount q of None \<Rightarrow> 0 | Some k \<Rightarrow> k) \<and>
   (authenticate s i = Inr u \<and> c \<noteq> [] \<and> getQrPaymentByCode e s c = Some q \<longrightarrow>
      (paymentAmount a q \<le> 0 \<longrightarrow> qr_scan e s i (Some c) a = (Inl InvalidPaymentAmount, s)) \<and>
      (qr_scan e s i (Some c) a = (Inl InvalidPaymentAmount, s') \<longrightarrow>
         paymentAmount a q \<le> 0 \<and> s' = s) \<and>
      (0 < paymentAmount a q \<and> paymentAmount a q \<le> walletBalance u \<longrightarrow>
         fst (qr_scan e s i (Some c) a) =
           Inr (PaymentSuccessful (paymentAmount a q) (merchantName q)
                 (toFixed2 (walletBalance u - paymentAmount a q))) \<or>
         fst (qr_scan e s i (Some c) a) = Inl InternalServerError) \<and>
      (0 < paymentAmount a q \<and> paymentAmount a q \<le> walletBalance u \<and>
       users_fit s \<and> fresh_reference e s \<and>
       length (or_default (merchantName q) ''QR Merchant'') \<le> 20 \<longrightarrow>
         (\<exists>s''. qr_scan e s i (Some c) a =
            (Inr (PaymentSuccessful (paymentAmount a q) (merchantName q)
                   (toFixed2 (walletBalance u - paymentAmount a q))), s''))))"
proof (intro conjI impI)
  assume "v \<noteq> 0"
  then show "paymentAmount (Some v) q = v" by (simp add: paymentAmount_def)
next
  show "paymentAmount (Some 0) q = paymentAmount None q" by (simp add: paymentAmount_def)
next
  show "paymentAmount None q = (case qr_amount q of None \<Rightarrow> 0 | Some k \<Rightarrow> k)"
    by (simp add: paymentAmount_def)
next
  assume h: "authenticate s i = Inr u \<and> c \<noteq> [] \<and> getQrPaymentByCode e s c = Some q"
    and "paymentAmount a q \<le> 0"
  then show "qr_scan e s i (Some c) a = (Inl InvalidPaymentAmount, s)"
    using qr_scan_invalid_amount [of s i u c e q a] by simp
next
  assume h: "authenticate s i = Inr u \<and> c \<noteq> [] \<and> getQrPaymentByCode e s c = Some q"
    and r: "qr_scan e s i (Some c) a = (Inl InvalidPaymentAmount, s')"
  then show "paymentAmount a q \<le> 0"
    using qr_scan_invalid_amountD [of s i u e c q a s'] by simp
  from r show "s' = s" by (rule qr_scan_Inl) simp
next
  assume h: "authenticate s i = Inr u \<and> c \<noteq> [] \<and> getQrPaymentByCode e s c = Some q"
    and "0 < paymentAmount a q \<and> paymentAmount a q \<le> walletBalance u"
  then show "fst (qr_scan e s i (Some c) a) =
           Inr (PaymentSuccessful (paymentAmount a q) (merchantName q)
                 (toFixed2 (walletBalance u - paymentAmount a q))) \<or>
         fst (qr_scan e s i (Some c) a) = Inl InternalServerError"
    using qr_scan_positive_amount [of s i u c e q a] by simp
next
  assume h: "authenticate s i = Inr u \<and> c \<noteq> [] \<and> getQrPaymentByCode e s c = Some q"
    and "0 < paymentAmount a q \<and> paymentAmount a q \<le> walletBalance u \<and>
       users_fit s \<and> fresh_reference e s \<and>
       length (or_default (merchantName q) ''QR Merchant'') \<le> 20"
  then show "\<exists>s''. qr_scan e s i (Some c) a =
            (Inr (PaymentSuccessful (paymentAmount a q) (merchantName q)
                   (toFixed2 (walletBalance u - paymentAmount a q))), s'')"
    using qr_scan_accepts [of s i u c e q a] by simp
qed

text \<open>On the code of 500: a request amount of 250 is the amount paid and a request amount
  of 0 leaves the 500 of the code; a request amount of -5 is rejected as an invalid
  payment amount and nothing changes; a request amount of 12.5 is accepted.\<close>

theorem scan_amount_resolution_witness:
  "authenticate db0 3 = Inr userC \<and> getQrPaymentByCode env0 db0 ''c0de'' = Some codeM \<and>
   users_fit db0 \<and> fresh_reference env0 db0 \<and>
   paymentAmount (Some 250) codeM = 250 \<and> paymentAmount (Some 0) codeM = 500 \<and>
   paymentAmount None codeM = 500 \<and>
   qr_scan env0 db0 3 (Some ''c0de'') (Some (- 5)) = (Inl InvalidPaymentAmount, db0) \<and>
   (\<exists>s''. qr_scan env0 db0 3 (Some ''c0de'') (Some (25 / 2)) =
      (Inr (PaymentSuccessful (25 / 2) (Some ''M'') (1975 / 2)), s''))"
proof -
  have a: "authenticate db0 3 = Inr userC" by code_simp
  have g: "getQrPaymentByCode env0 db0 ''c0de'' = Some codeM" by code_simp
  have n: "''c0de'' \<noteq> []" by simp
  have uf: "users_fit db0" by code_simp
  have fr: "fresh_reference env0 db0" by code_simp
  have ml: "length (or_default (merchantName codeM) ''QR Merchant'') \<le> 20" by code_simp
  have q: "qr_amount codeM = Some 500" "merchantName codeM = Some ''M''"
    by (simp_all add: codeM_def)
  have w: "walletBalance userC = 1000" by (simp add: userC_def)
  have f: "toFixed2 (1000 - 25 / 2) = 1975 / 2" by code_simp
  from scan_amount_resolution [where v = 250 and q = codeM and a = "Some 250"] q
  have p1: "paymentAmount (Some 250) codeM = 250" "paymentAmount (Some 0) codeM = 500"
    "paymentAmount None codeM = 500" by simp_all
  from scan_amount_resolution [where v = "- 5" and q = codeM and a = "Some (- 5)" and s = db0
      and i = 3 and u = userC and c = "''c0de''" and e = env0] a g n
  have p2: "paymentAmount (Some (- 5)) codeM = - 5"
    "paymentAmount (Some (- 5)) codeM \<le> 0 \<longrightarrow>
       qr_scan env0 db0 3 (Some ''c0de'') (Some (- 5)) = (Inl InvalidPaymentAmount, db0)"
    by simp_all
  then have r: "qr_scan env0 db0 3 (Some ''c0de'') (Some (- 5)) = (Inl InvalidPaymentAmount, db0)"
    by simp
  have pa: "paymentAmount (Some (25 / 2)) codeM = 25 / 2" by code_simp
  have ok: "0 < paymentAmount (Some (25 / 2)) codeM \<and>
       paymentAmount (Some (25 / 2)) codeM \<le> walletBalance userC" by code_simp
  from scan_amount_resolution [where v = "25 / 2" and q = codeM and a = "Some (25 / 2)"
      and s = db0 and i = 3 and u = userC and c = "''c0de''" and e = env0] a g n ok uf fr ml
  have "\<exists>s''. qr_scan env0 db0 3 (Some ''c0de'') (Some (25 / 2)) =
            (Inr (PaymentSuccessful (paymentAmount (Some (25 / 2)) codeM) (merchantName codeM)
                   (toFixed2 (walletBalance userC - paymentAmount (Some (25 / 2)) codeM))), s'')"
    by blast
  then have "\<exists>s''. qr_scan env0 db0 3 (Some ''c0de'') (Some (25 / 2)) =
      (Inr (PaymentSuccessful (25 / 2) (Some ''M'') (1975 / 2)), s'')"
    by (simp only: pa q w f)
  then show ?thesis using a g uf fr p1 r by simp
qed

text \<open>A request amount of 0.125, which is neither a whole number nor a whole number of
  hundredths, is accepted: the scan succeeds, the wallet goes from 1000 to 999.88 and the
  code becomes used.\<close>

theorem scan_amount_resolution_counterexample:
  "(of_int \<lfloor>1 / 8 :: rat\<rfloor> :: rat) \<noteq> 1 / 8 \<and> whole_cents (1 / 8) = False \<and>
   fst (qr_scan env0 db0 3 (Some ''c0de'') (Some (1 / 8)))
     = Inr (PaymentSuccessful (1 / 8) (Some ''M'') (24997 / 25)) \<and>
   map walletBalance (users (snd (qr_scan env0 db0 3 (Some ''c0de'') (Some (1 / 8)))))
     = [0, 750, 24997 / 25] \<and>
   map isUsed (qrPayments (snd (qr_scan env0 db0 3 (Some ''c0de'') (Some (1 / 8))))) = [True]"
  by code_simp

subsection \<open>C10: what a QR payment changes\<close>

text \<open>
  C10 (as amended). A successful QR payment rewrites only the wallet balance of the payer:
  the users table after it is the table before with the wallet balance of the payer set
  to the rounded difference, so every balance is as before, no wallet balance has grown,
  and every other user, the issuer of the code included, is unchanged. When the paid
  amount has at most two decimals (and ids are unique and balances two-decimal) the wallet
  of the payer is lowered by exactly the amount and so is the total held by all users.
  The one transaction row that is appended has no destination user, and its destination
  account field is the merchant name of the code (``QR Merchant'' when the code has none).
\<close>

theorem qr_payment_frame:
  assumes "users_wf s" "qr_scan e s i c a = (Inr x, s')"
  shows "\<exists>u q. getUser s i = Some u \<and> getQrPaymentByCode e s (the c) = Some q \<and>
    users s' = map (\<lambda>w. if user_id w = i
        then w\<lparr>walletBalance := toFixed2 (walletBalance u - paymentAmount a q)\<rparr> else w) (users s) \<and>
    list_all2 (\<lambda>w w'. balance w' = balance w \<and> walletBalance w' \<le> walletBalance w)
      (users s) (users s') \<and>
    (\<forall>j. j \<noteq> i \<longrightarrow> getUser s' j = getUser s j) \<and>
    (whole_cents (paymentAmount a q) \<longrightarrow>
       getUser s' i = Some (u\<lparr>walletBalance := walletBalance u - paymentAmount a q\<rparr>) \<and>
       total_money s' = total_money s - paymentAmount a q) \<and>
    transactions s' = transactions s @
      [\<lparr>fromUserId = Some i, toUserId = None,
        fromAccountNumber = Some (accountNumber u),
        toAccountNumber = Some (or_default (merchantName q) ''QR Merchant''),
        amount = decimal_15_2 (paymentAmount a q), transactionType = wallet_payment,
        description = Some (''QR Payment to '' @ or_default (merchantName q) ''Merchant''),
        status = completed, referenceNumber = generateReferenceNumber e,
        tx_id = next_tx_id s, createdAt = now e\<rparr>]"
proof -
  from assms(2) obtain u q code s1 s2 where au: "authenticate s i = Inr u"
    and c: "c = Some code"
    and g: "getQrPaymentByCode e s code = Some q"
    and pos: "0 < paymentAmount a q"
    and row: "createTransaction e s (payment_row e u q (paymentAmount a q)) = Some s1"
    and upd: "updateUserWalletBalance s1 (user_id u)
        (toFixed2 (walletBalance u - paymentAmount a q)) = Some s2"
    and s': "s' = markQrPaymentAsUsed s2 (qr_id q)"
    by (rule qr_scan_Inr)
  let ?nw = "toFixed2 (walletBalance u - paymentAmount a q)"
  let ?g = "\<lambda>w. if user_id w = i then w\<lparr>walletBalance := ?nw\<rparr> else w"
  from au have u: "getUser s i = Some u" "u \<in> set (users s)" "user_id u = i"
    by (simp_all add: authenticate_InrD)
  have d: "distinct (map user_id (users s))" using assms(1) by (rule users_wf_distinct)
  have cu: "whole_cents (walletBalance u)" using users_wfD [OF assms(1) u(2)] by simp
  have dn: "decimal_15_2 ?nw = ?nw" by (rule decimal_toFixed2)
  have us1: "users s1 = users s" using row by (rule createTransaction_SomeD(1))
  have us: "users s' = map ?g (users s)"
    using updateUserWalletBalance_SomeD(2) [OF upd] unfolding dn
    by (simp add: s' us1 u(3) markQrPaymentAsUsed_def)
  have le: "?nw \<le> walletBalance u"
  proof -
    have "?nw \<le> toFixed2 (walletBalance u)" using pos by (intro toFixed2_mono) simp
    then show ?thesis using cu by (simp add: toFixed2_whole_cents)
  qed
  have rw: "balance (?g w) = balance w \<and> walletBalance (?g w) \<le> walletBalance w"
    if "w \<in> set (users s)" for w
  proof (cases "user_id w = i")
    case True
    with d that u(1) have "w = u" by (rule same_user_id)
    then show ?thesis using le u(3) by simp
  next
    case False
    then show ?thesis by simp
  qed
  have frame: "list_all2 (\<lambda>w w'. balance w' = balance w \<and> walletBalance w' \<le> walletBalance w)
      (users s) (users s')"
    unfolding us list_all2_map2 using rw by (intro list.rel_refl_strong) blast
  have g2: "getUser s' j = map_option ?g (getUser s j)" for j
    using getUser_updateUserWalletBalance [OF upd, of j] getUser_createTransaction [OF row, of j]
    unfolding dn by (simp add: s' u(3))
  have other: "getUser s' j = getUser s j" if "j \<noteq> i" for j
  proof (cases "getUser s j")
    case None
    then show ?thesis using g2 [of j] by simp
  next
    case (Some w)
    then have "user_id w \<noteq> i" using that by (auto dest: getUser_SomeD)
    then show ?thesis using Some g2 [of j] by simp
  qed
  have exact: "getUser s' i = Some (u\<lparr>walletBalance := walletBalance u - paymentAmount a q\<rparr>) \<and>
       total_money s' = total_money s - paymentAmount a q"
    if wc: "whole_cents (paymentAmount a q)"
  proof -
    have f: "?nw = walletBalance u - paymentAmount a q"
      using cu wc by (simp add: toFixed2_whole_cents whole_cents_diff)
    have "getUser s' i = Some (u\<lparr>walletBalance := walletBalance u - paymentAmount a q\<rparr>)"
      using g2 [of i] u f by simp
    moreover have d1: "distinct (map user_id (users s1))" using d us1 by simp
    have u1: "getUser s1 (user_id u) = Some u"
      using getUser_createTransaction [OF row, of i] u by simp
    have "total_money s2 = total_money s1 - walletBalance u + decimal_15_2 ?nw"
      using d1 u1 upd by (rule total_money_updateUserWalletBalance)
    then have "total_money s' = total_money s - paymentAmount a q"
      using total_money_createTransaction [OF row] f unfolding dn by (simp add: s')
    ultimately show ?thesis by simp
  qed
  have tx: "transactions s' = transactions s @
      [\<lparr>fromUserId = Some i, toUserId = None,
        fromAccountNumber = Some (accountNumber u),
        toAccountNumber = Some (or_default (merchantName q) ''QR Merchant''),
        amount = decimal_15_2 (paymentAmount a q), transactionType = wallet_payment,
        description = Some (''QR Payment to '' @ or_default (merchantName q) ''Merchant''),
        status = completed, referenceNumber = generateReferenceNumber e,
        tx_id = next_tx_id s, createdAt = now e\<rparr>]"
    using createTransaction_SomeD(4) [OF row] updateUserWalletBalance_SomeD(3) [OF upd] u(3)
    by (simp add: s' payment_row_def markQrPaymentAsUsed_def)
  have gq: "getQrPaymentByCode e s (the c) = Some q" using g c by simp
  show ?thesis
    using u(1) gq us frame other exact tx by (intro exI [of _ u] exI [of _ q]) blast
qed

text \<open>The third customer pays the code of 500 issued by the second customer: only the
  wallet of the third customer changes (1000 to 500), the issuer keeps 7500 and 750, the
  total falls from 17250 to 16750, and the recorded row names merchant \<open>M\<close> and no
  destination user.\<close>

theorem qr_payment_frame_witness:
  "users_wf db0 \<and>
   qr_scan (env_at 1000001 ''TXN1000001111'') db0 3 (Some ''c0de'') None
     = (Inr (PaymentSuccessful 500 (Some ''M'') 500), db1) \<and>
   map balance (users db1) = map balance (users db0) \<and>
   map walletBalance (users db0) = [0, 750, 1000] \<and>
   map walletBalance (users db1) = [0, 750, 500] \<and>
   userId codeM = 2 \<and> getUser db1 2 = Some userB \<and>
   total_money db0 = 17250 \<and> total_money db1 = 16750 \<and>
   map toUserId (transactions db1) = [None] \<and>
   map toAccountNumber (transactions db1) = [Some ''M'']"
proof -
  have wf: "users_wf db0" by code_simp
  have "fst (qr_scan (env_at 1000001 ''TXN1000001111'') db0 3 (Some ''c0de'') None)
      = Inr (PaymentSuccessful 500 (Some ''M'') 500)" by code_simp
  then have scan: "qr_scan (env_at 1000001 ''TXN1000001111'') db0 3 (Some ''c0de'') None
     = (Inr (PaymentSuccessful 500 (Some ''M'') 500), db1)"
    by (simp add: prod_eq_iff db1_def)
  have gu: "getUser db0 3 = Some userC" by code_simp
  have gq: "getQrPaymentByCode (env_at 1000001 ''TXN1000001111'') db0 ''c0de'' = Some codeM"
    by code_simp
  have pa: "paymentAmount None codeM = 500" by code_simp
  have wc: "whole_cents 500" by code_simp
  from qr_payment_frame [OF wf scan] gu gq
  have "\<forall>j. j \<noteq> 3 \<longrightarrow> getUser db1 j = getUser db0 j"
    and "whole_cents (paymentAmount None codeM) \<longrightarrow>
       total_money db1 = total_money db0 - paymentAmount None codeM"
    by auto
  then have other: "getUser db1 2 = getUser db0 2"
    and tot: "total_money db1 = total_money db0 - 500"
    using pa wc by simp_all
  have "getUser db0 2 = Some userB" by code_simp
  with other have issuer: "getUser db1 2 = Some userB" by simp
  have t0: "total_money db0 = 17250" by code_simp
  with tot have t1: "total_money db1 = 16750" by simp
  have b: "map balance (users db1) = map balance (users db0)" by code_simp
  have w0: "map walletBalance (users db0) = [0, 750, 1000]" by code_simp
  have w1: "map walletBalance (users db1) = [0, 750, 500]" by code_simp
  have i: "userId codeM = 2" by (simp add: codeM_def)
  have x: "map toUserId (transactions db1) = [None]"
    "map toAccountNumber (transactions db1) = [Some ''M'']" by code_simp+
  show ?thesis using wf scan b w0 w1 i issuer t0 t1 x by simp
qed

text \<open>A payment of 0.125 from a wallet of 1000 succeeds and leaves 999.88 in the wallet:
  the payer and the total lose 0.12, not the paid amount.\<close>

theorem qr_payment_frame_counterexample:
  "fst (qr_scan env0 db0 3 (Some ''c0de'') (Some (1 / 8)))
     = Inr (PaymentSuccessful (1 / 8) (Some ''M'') (24997 / 25)) \<and>
   map walletBalance (users db0) = [0, 750, 1000] \<and>
   map walletBalance (users (snd (qr_scan env0 db0 3 (Some ''c0de'') (Some (1 / 8)))))
     = [0, 750, 24997 / 25] \<and>
   total_money db0 = 17250 \<and>
   total_money (snd (qr_scan env0 db0 3 (Some ''c0de'') (Some (1 / 8)))) = 431247 / 25 \<and>
   (431247 / 25 :: rat) \<noteq> 17250 - 1 / 8"
  by code_simp

end
